theory Spec2Isabelle
  imports Main
begin

section \<open>Diff hunk rows (web/src/repo/compare/FileDiffHunks.tsx, DiffHunk)\<close>

text \<open>
  \<open>hunk.body.split('\n')\<close>: the segments between line feeds. The result is never
  empty: the empty string gives one empty segment, and a body ending in a line feed gives
  an empty last segment.
\<close>

fun split :: "char \<Rightarrow> string \<Rightarrow> string list" where
  "split sep [] = [[]]"
| "split sep (c # cs) =
     (if c = sep then [] # split sep cs
      else (case split sep cs of [] \<Rightarrow> [[c]] | l # ls \<Rightarrow> (c # l) # ls))"

text \<open>\<open>.slice(0, -1)\<close>: every element but the last; the empty array stays empty.\<close>

definition slice_0_m1 :: "'a list \<Rightarrow> 'a list" where
  "slice_0_m1 xs = take (length xs - 1) xs"

text \<open>\<open>line[0]\<close>: the first character, \<open>undefined\<close> (here \<open>None\<close>) on the empty string.\<close>

definition line0 :: "string \<Rightarrow> char option" where
  "line0 l = (case l of [] \<Rightarrow> None | c # _ \<Rightarrow> Some c)"

text \<open>
  Line numbers. In the source they are JavaScript numbers, that is IEEE doubles. The
  model covers the integers from \<open>-2^53\<close> to \<open>2^53\<close>: a number holds each of them exactly,
  and a template literal prints each in decimal. Counting stays in that range, as it does
  in the source: \<open>2^53 + 1\<close> is not a number and the sum rounds (ties to even) back to
  \<open>2^53\<close>, so \<open>++\<close> stops advancing there, and likewise \<open>-2^53 - 1\<close> rounds to \<open>-2^53\<close>.
  Fractions, larger magnitudes, infinities and NaN are outside the model.
\<close>

typedef number = "{i::int. - 9007199254740992 \<le> i \<and> i \<le> 9007199254740992}"
  morphisms int_of Abs_number
  by (rule exI [of _ 0]) simp

setup_lifting type_definition_number

text \<open>The number an integer literal of the range denotes (a literal beyond is cut to it).\<close>

lift_definition number :: "int \<Rightarrow> number" is
  "\<lambda>i. max (- 9007199254740992) (min i 9007199254740992)"
  by simp

text \<open>\<open>x++\<close> (the value stored) and \<open>x - 1\<close>.\<close>

lift_definition incr :: "number \<Rightarrow> number" is "\<lambda>i. min (i + 1) 9007199254740992"
  by simp

lift_definition minus_one :: "number \<Rightarrow> number" is "\<lambda>i. max (i - 1) (- 9007199254740992)"
  by simp

text \<open>A number of the range in a template literal: its decimal digits.\<close>

fun digits :: "nat \<Rightarrow> string" where
  "digits n =
     (if n < 10 then [char_of (48 + n)] else digits (n div 10) @ [char_of (48 + n mod 10)])"

definition num_str :: "int \<Rightarrow> string" where
  "num_str i = (if i < 0 then CHR ''-'' # digits (nat (- i)) else digits (nat i))"

text \<open>
  A line number cell: \<open>Num dataLine dataPart id\<close> is the cell carrying a number (given by
  its integer value), \<open>NumEmpty\<close> the cell of class \<open>diff-hunk__num--empty\<close>.
\<close>

datatype numcell = Num int string string | NumEmpty

text \<open>
  One \<open>tr\<close> of the hunk. \<open>className\<close> holds the template's parts in order: the fixed
  class and the four interpolations (each a class name or the empty string). \<open>nums\<close> is
  the pair of line number cells, absent when \<open>lineNumbers\<close> is off.
\<close>

record row =
  key :: nat
  className :: "string list"
  nums :: "(numcell \<times> numcell) option"
  content :: string

text \<open>
  The body of the \<open>map\<close> callback, for one line: it advances the two counters captured
  from the enclosing function and builds the row. The counters go in and come out.
\<close>

definition hunk_line ::
  "string \<Rightarrow> bool \<Rightarrow> string \<Rightarrow> number \<times> number \<Rightarrow> string \<Rightarrow> nat \<Rightarrow>
   (number \<times> number) \<times> row" where
  "hunk_line fileDiffAnchor lineNumbers hash st line i =
     (let oldLine = (if line0 line \<noteq> Some (CHR ''+'') then incr (fst st) else fst st);
          newLine = (if line0 line \<noteq> Some (CHR ''-'') then incr (snd st) else snd st);
          oldAnchor = fileDiffAnchor @ ''L'' @ num_str (int_of (minus_one oldLine));
          newAnchor = fileDiffAnchor @ ''R'' @ num_str (int_of (minus_one newLine))
      in ((oldLine, newLine),
          \<lparr> key = i,
            className =
              [''diff-hunk__line'',
               (if line0 line = Some (CHR '' '') then ''diff-hunk__line--both'' else ''''),
               (if line0 line = Some (CHR ''-'') then ''diff-hunk__line--deletion'' else ''''),
               (if line0 line = Some (CHR ''+'') then ''diff-hunk__line--addition'' else ''''),
               (if (line0 line \<noteq> Some (CHR ''+'') \<and> hash = ''#'' @ oldAnchor) \<or>
                   (line0 line \<noteq> Some (CHR ''-'') \<and> hash = ''#'' @ newAnchor)
                then ''diff-hunk__line--active'' else '''')],
            nums =
              (if lineNumbers
               then Some
                 ((if line0 line \<noteq> Some (CHR ''+'')
                   then Num (int_of (minus_one oldLine)) ''old'' oldAnchor else NumEmpty),
                  (if line0 line \<noteq> Some (CHR ''-'')
                   then Num (int_of (minus_one newLine)) ''new'' newAnchor else NumEmpty))
               else None),
            content = line \<rparr>))"

text \<open>The \<open>map\<close> over the lines, left to right, with the index \<open>i\<close> as key.\<close>

fun hunk_lines ::
  "string \<Rightarrow> bool \<Rightarrow> string \<Rightarrow> number \<times> number \<Rightarrow> nat \<Rightarrow> string list \<Rightarrow> row list" where
  "hunk_lines a ln hash st i [] = []"
| "hunk_lines a ln hash st i (l # ls) =
     (case hunk_line a ln hash st l i of
        (st', r) \<Rightarrow> r # hunk_lines a ln hash st' (Suc i) ls)"

record line_range =
  startLine :: number
  lines :: "number option"

record IFileDiffHunk =
  oldRange :: line_range
  newRange :: line_range
  hunk_section :: "string option"
  body :: string

text \<open>
  The rows \<open>DiffHunk\<close> renders below the boundary row, for the anchor prefix, the hunk,
  the \<open>lineNumbers\<close> flag and \<open>location.hash\<close>.
\<close>

definition DiffHunk :: "string \<Rightarrow> IFileDiffHunk \<Rightarrow> bool \<Rightarrow> string \<Rightarrow> row list" where
  "DiffHunk fileDiffAnchor hunk lineNumbers hash =
     hunk_lines fileDiffAnchor lineNumbers hash
       (startLine (oldRange hunk), startLine (newRange hunk)) 0
       (slice_0_m1 (split (CHR 0x0A) (body hunk)))"

subsection \<open>The numbering model as the specification words it\<close>

datatype kind = Context | Added | Removed

text \<open>Row tagging by leading marker: space is context, minus removed, plus added.\<close>

definition row_tag :: "string \<Rightarrow> kind option" where
  "row_tag l =
     (case l of
        [] \<Rightarrow> None
      | c # _ \<Rightarrow>
          if c = CHR '' '' then Some Context
          else if c = CHR ''-'' then Some Removed
          else if c = CHR ''+'' then Some Added
          else None)"

text \<open>
  The numbering of the specification, written from its words and not from the code: the
  old number advances on context and removed rows and is held on added rows, the new
  number advances on context and added rows and is held on removed rows; a row with any
  other marker is an error (\<open>None\<close>).
\<close>

fun spec_rows ::
  "int \<Rightarrow> int \<Rightarrow> string list \<Rightarrow> (kind \<times> int option \<times> int option) list option" where
  "spec_rows ol nw [] = Some []"
| "spec_rows ol nw (l # ls) =
     (case row_tag l of
        None \<Rightarrow> None
      | Some Context \<Rightarrow>
          map_option ((#) (Context, Some ol, Some nw)) (spec_rows (ol + 1) (nw + 1) ls)
      | Some Removed \<Rightarrow>
          map_option ((#) (Removed, Some ol, None)) (spec_rows (ol + 1) nw ls)
      | Some Added \<Rightarrow>
          map_option ((#) (Added, None, Some nw)) (spec_rows ol (nw + 1) ls))"

text \<open>What a rendered row shows: its kind (from its classes) and its two numbers.\<close>

definition row_kind :: "row \<Rightarrow> kind option" where
  "row_kind r =
     (if ''diff-hunk__line--both'' \<in> set (className r) then Some Context
      else if ''diff-hunk__line--deletion'' \<in> set (className r) then Some Removed
      else if ''diff-hunk__line--addition'' \<in> set (className r) then Some Added
      else None)"

definition old_number :: "row \<Rightarrow> int option" where
  "old_number r = (case nums r of Some (Num n _ _, _) \<Rightarrow> Some n | _ \<Rightarrow> None)"

definition new_number :: "row \<Rightarrow> int option" where
  "new_number r = (case nums r of Some (_, Num n _ _) \<Rightarrow> Some n | _ \<Rightarrow> None)"

definition row_view :: "row \<Rightarrow> kind option \<times> int option \<times> int option" where
  "row_view r = (row_kind r, old_number r, new_number r)"

text \<open>A hunk with the given start lines and body (the other fields play no part in the rows).\<close>

definition hunk_of :: "int \<Rightarrow> int \<Rightarrow> string \<Rightarrow> IFileDiffHunk" where
  "hunk_of ol nw b =
     \<lparr> oldRange = \<lparr> startLine = number ol, lines = None \<rparr>,
       newRange = \<lparr> startLine = number nw, lines = None \<rparr>,
       hunk_section = None, body = b \<rparr>"

section \<open>The tooltip coordinator (FileDiffHunks)\<close>

text \<open>
  The mounted component is modelled as a state machine: a step per event it reacts to, on
  a state that holds the component's own state, the classes it toggles in the document,
  the inner subscriptions of its two \<open>switchMap\<close>s, and the calls it makes to its
  collaborators, in order. The events are the debounced gestures, the notifications of
  the lookups and of the loading timer (each carrying the number of the inner
  subscription it belongs to), and the other listeners' events. A notification for an
  inner subscription that has been unsubscribed or has completed is not delivered: the
  step leaves the state as it is.
\<close>

subsection \<open>Data\<close>

text \<open>An \<open>HTMLElement\<close>, by identity.\<close>

type_synonym element = nat

datatype DiffPart = Old | New

text \<open>What \<open>getTargetLineAndOffset\<close> returns; \<open>part\<close> may be undefined.\<close>

record position =
  line :: int
  character :: int
  part :: "DiffPart option"

record DiffFile =
  repoPath :: string
  repoID :: string
  rev :: string
  commitID :: string
  filePath :: "string option"
  mode :: "string option"

text \<open>The properties the coordinator reads.\<close>

record Props =
  base :: DiffFile
  head :: DiffFile

text \<open>
  The \<open>ctx\<close> of a lookup (\<open>LSPTextDocumentPositionParams\<close>): the fields of the base or
  head file, spread, with \<open>position\<close> and \<open>mode\<close> set after them.
\<close>

record ctx = DiffFile +
  position :: position

text \<open>An error, with its \<open>code\<close>.\<close>

datatype err = Err (code: int)

text \<open>
  Modelled from the spec: \<open>EMODENOTFOUND\<close> is imported from \<open>backend/lsp\<close>, which is not
  among the sources. It is the code of the sentinel for a lookup that is unsupported in
  its context; the component only compares error codes with it, so the number chosen
  here stands for whatever the constant is.
\<close>

definition EMODENOTFOUND :: int where
  "EMODENOTFOUND = - 32000"

text \<open>A hover response: its \<open>contents\<close>, possibly absent.\<close>

datatype Hover = Hover (hover_contents: "string list option")

text \<open>
  Modelled from the spec: \<open>isEmptyHover\<close> is imported from \<open>backend/lsp\<close>, which is not
  among the sources. A lookup result is empty when it has no contents or an empty list of
  contents.
\<close>

definition isEmptyHover :: "Hover \<Rightarrow> bool" where
  "isEmptyHover h = (case hover_contents h of None \<Rightarrow> True | Some cs \<Rightarrow> cs = [])"

text \<open>What an observable delivers to a subscriber: a value, or an error.\<close>

datatype 'a notification = Value 'a | Failure err

datatype gesture_type = Mouseover | Click

text \<open>
  \<open>TooltipData\<close>: target and ctx, the fields spread from the hover response, the
  \<open>loading\<close> flag, the definition response attached when docking (a URL or an error),
  and the \<open>type\<close> the gesture pipeline adds.
\<close>

record TooltipData =
  target :: element
  ctx :: ctx
  contents :: "string list option"
  loading :: bool
  defUrlOrError :: "(err + string) option"
  type :: "gesture_type option"

text \<open>Where \<open>history.push\<close> goes.\<close>

datatype destination =
    Hash string
  | AbsoluteBlobURL ctx
  | PrettyBlobURL ctx string

text \<open>
  The calls to collaborators, recorded in the order they are made. \<open>Log name p\<close> is
  \<open>eventLogger.log(name, {hoverHasDefUrl: p})\<close>, with \<open>None\<close> for no properties;
  \<open>UpdateTooltip data docked\<close> is \<open>updateTooltip(data, docked, actions)\<close>.
\<close>

datatype effect =
    Log string "bool option"
  | LogTelemetryOnTooltip TooltipData bool
  | UpdateTooltip TooltipData bool
  | HideTooltip
  | HistoryPush destination
  | ConsoleError err
  | PreventDefault
  | CreateTooltips
  | ConvertNode element
  | GetHover ctx
  | GetJumpURL ctx

text \<open>
  The inner subscription of the gesture pipeline's \<open>switchMap\<close>: the gesture it serves
  and whether its \<open>interval(500)\<close> is still subscribed.
\<close>

record gesture_chain =
  gid :: nat
  gtype :: gesture_type
  gtarget :: element
  gctx :: ctx
  timer :: bool

text \<open>
  The inner subscription of the \<open>fixedTooltip\<close> pipeline's \<open>switchMap\<close>: the two values
  \<open>zip\<close> waits for, each buffered once it has arrived.
\<close>

record dock_chain =
  did :: nat
  dtarget :: element
  dctx :: ctx
  dhover :: "TooltipData option"
  ddef :: "(err + string option) option"

record state =
  fixedTooltip :: "TooltipData option"
  highlight :: "element set"
  sticky :: "element set"
  pointer :: "element set"
  annotated :: "element set"
  effects :: "effect list"
  nextId :: nat
  hoverChain :: "gesture_chain option"
  dockChain :: "dock_chain option"

record MouseEvent =
  shiftKey :: bool
  ctrlKey :: bool
  altKey :: bool
  metaKey :: bool

subsection \<open>Operations\<close>

definition emit :: "effect \<Rightarrow> state \<Rightarrow> state" where
  "emit e s = s\<lparr>effects := effects s @ [e]\<rparr>"

text \<open>\<open>setFixedTooltip(data?)\<close>, statement by statement.\<close>

definition setFixedTooltip :: "TooltipData option \<Rightarrow> state \<Rightarrow> state" where
  "setFixedTooltip data s =
     (let s1 = s\<lparr>highlight := {}\<rparr>;
          s2 = s1\<lparr>sticky := {}\<rparr>;
          s3 = (case data of
                  Some d \<Rightarrow>
                    (let s' = (if defUrlOrError d = None
                               then emit (Log ''TooltipDocked'' (Some False)) s2
                               else emit (Log ''TooltipDockedWithDefinition'' (Some True)) s2)
                     in s'\<lparr>sticky := insert (target d) (sticky s')\<rparr>)
                | None \<Rightarrow> emit HideTooltip s2)
      in s3\<lparr>fixedTooltip := data\<rparr>)"

text \<open>
  \<open>getTooltip(target, ctx)\<close>: the \<open>tap\<close> that styles the target when the hover is not
  empty, and the \<open>map\<close> that builds the tooltip data.
\<close>

definition getTooltip_tap :: "element \<Rightarrow> Hover \<Rightarrow> state \<Rightarrow> state" where
  "getTooltip_tap t h s =
     (if isEmptyHover h then s
      else s\<lparr>pointer := insert t (pointer s), highlight := insert t (highlight s)\<rparr>)"

definition getTooltip_map :: "element \<Rightarrow> ctx \<Rightarrow> Hover \<Rightarrow> TooltipData" where
  "getTooltip_map t c h =
     \<lparr> target = t, ctx = c, contents = hover_contents h, loading = False,
       defUrlOrError = None, type = None \<rparr>"

text \<open>The data \<open>{ target, ctx }\<close> of the two \<open>catchError\<close>s.\<close>

definition bare :: "element \<Rightarrow> ctx \<Rightarrow> TooltipData" where
  "bare t c =
     \<lparr> target = t, ctx = c, contents = None, loading = False,
       defUrlOrError = None, type = None \<rparr>"

text \<open>
  The body shared by the \<open>tap\<close> and the subscriber of the \<open>fixedTooltip\<close> pipeline
  (lines 192 to 206 and 222 to 236): undock when there is nothing to show, dock and
  display otherwise.
\<close>

definition dock_apply :: "TooltipData option \<Rightarrow> state \<Rightarrow> state" where
  "dock_apply data s =
     (case data of
        None \<Rightarrow> setFixedTooltip None s
      | Some d \<Rightarrow>
          if contents d = None \<or> isEmptyHover (Hover (contents d))
          then setFixedTooltip None s
          else emit (UpdateTooltip d True) (setFixedTooltip (Some d) s))"

text \<open>\<open>defResponse || undefined\<close>: null and the empty string become undefined.\<close>

definition def_or_undefined :: "err + string option \<Rightarrow> (err + string) option" where
  "def_or_undefined r =
     (case r of
        Inl e \<Rightarrow> Some (Inl e)
      | Inr None \<Rightarrow> None
      | Inr (Some u) \<Rightarrow> if u = [] then None else Some (Inr u))"

text \<open>
  \<open>this.fixedTooltip.next(data)\<close>: the \<open>switchMap\<close> drops the previous inner subscription
  and builds the next one, calling \<open>getTooltip\<close> and \<open>getDefinition\<close> for the data's ctx.
\<close>

definition fixedTooltip_next :: "TooltipData \<Rightarrow> state \<Rightarrow> state" where
  "fixedTooltip_next data s =
     (let s1 = emit (GetJumpURL (ctx data)) (emit (GetHover (ctx data)) s)
      in s1\<lparr>dockChain :=
               Some \<lparr> did = nextId s1, dtarget = target data, dctx = ctx data,
                      dhover = None, ddef = None \<rparr>,
             nextId := Suc (nextId s1)\<rparr>)"

text \<open>The subscriber of the gesture pipeline (lines 287 to 295).\<close>

definition gesture_subscriber :: "TooltipData \<Rightarrow> state \<Rightarrow> state" where
  "gesture_subscriber data s =
     (let click = (type data = Some Click);
          s1 = emit (LogTelemetryOnTooltip data click) s
      in if click then fixedTooltip_next data s1
         else if fixedTooltip s1 = None then emit (UpdateTooltip data False) s1
         else s1)"

text \<open>
  The ctx of a gesture at position \<open>loc\<close>: the base file's fields for the old part and
  the head file's otherwise, the mode of the head when the base has no file path and of
  the base otherwise.
\<close>

definition mk_ctx :: "Props \<Rightarrow> position \<Rightarrow> ctx" where
  "mk_ctx props loc =
     (let f = (if part loc = Some Old then base props else head props)
      in \<lparr> repoPath = repoPath f, repoID = repoID f, rev = rev f, commitID = commitID f,
           filePath = filePath f,
           mode = (if filePath (base props) = None then mode (head props)
                   else mode (base props)),
           position = loc \<rparr>)"

text \<open>
  A debounced \<open>mouseover\<close> or \<open>click\<close> with its target, the table cell
  \<open>getTableDataCell\<close> finds for it and the position \<open>getTargetLineAndOffset\<close> finds for
  it (both functions are outside the sources, so their results come with the event). The
  \<open>tap\<close> prepares the cell; the \<open>filter\<close> stops a gesture without position or part, before
  the \<open>switchMap\<close>; the \<open>switchMap\<close> drops the previous inner subscription and builds
  the next one: \<open>getTooltip\<close>, the loading timer, and the call of \<open>getDefinition\<close> whose
  result is not used.
\<close>

definition on_gesture ::
  "Props \<Rightarrow> gesture_type \<Rightarrow> element \<Rightarrow> element option \<Rightarrow> position option \<Rightarrow> state \<Rightarrow> state" where
  "on_gesture props ty t td loc s =
     (let s1 = emit CreateTooltips s;
          s2 = (case td of
                  None \<Rightarrow> s1
                | Some c \<Rightarrow>
                    if c \<in> annotated s1 then s1
                    else emit (ConvertNode c) (s1\<lparr>annotated := insert c (annotated s1)\<rparr>))
      in case loc of
           None \<Rightarrow> s2
         | Some l \<Rightarrow>
             if part l = None then s2
             else
               (let c = mk_ctx props l;
                    s3 = emit (GetJumpURL c) (emit (GetHover c) s2)
                in s3\<lparr>hoverChain :=
                         Some \<lparr> gid = nextId s3, gtype = ty, gtarget = t, gctx = c,
                                timer = True \<rparr>,
                       nextId := Suc (nextId s3)\<rparr>))"

text \<open>
  The loading timer of inner subscription \<open>g\<close> fires. It is heard only while that
  subscription is the current one and its interval is still subscribed; \<open>take(1)\<close> then
  ends the interval, and the loading data goes to the subscriber.
\<close>

definition on_timer :: "nat \<Rightarrow> state \<Rightarrow> state" where
  "on_timer g s =
     (case hoverChain s of
        None \<Rightarrow> s
      | Some c \<Rightarrow>
          if gid c = g \<and> timer c
          then gesture_subscriber
                 ((bare (gtarget c) (gctx c))\<lparr>loading := True, type := Some (gtype c)\<rparr>)
                 (s\<lparr>hoverChain := Some (c\<lparr>timer := False\<rparr>)\<rparr>)
          else s)"

text \<open>
  The hover lookup of inner subscription \<open>g\<close> resolves. The inner observable subscribes to
  \<open>tooltip\<close> twice, as the notifier of \<open>takeUntil\<close> and as the second argument of
  \<open>merge\<close>, so the \<open>tap\<close> of \<open>getTooltip\<close> runs for each (the notifier's subscription
  is gone once the timer has fired). The notifier ends the loading timer; the value, with
  the gesture's type, goes to the subscriber, and the inner observable completes. An
  error reaches \<open>catchError\<close>, which logs it unless its code is \<open>EMODENOTFOUND\<close> and
  delivers the bare data instead.

  Modelled from the spec: \<open>getHover\<close> is imported from \<open>backend/features\<close>, which is not
  among the sources. The gateway issues one hover query per position, so the two
  subscriptions are served by the same response at the same moment.
\<close>

definition on_hover :: "nat \<Rightarrow> Hover notification \<Rightarrow> state \<Rightarrow> state" where
  "on_hover g r s =
     (case hoverChain s of
        None \<Rightarrow> s
      | Some c \<Rightarrow>
          if gid c \<noteq> g then s
          else
            (case r of
               Value h \<Rightarrow>
                 gesture_subscriber
                   ((getTooltip_map (gtarget c) (gctx c) h)\<lparr>type := Some (gtype c)\<rparr>)
                   ((if timer c
                     then getTooltip_tap (gtarget c) h (getTooltip_tap (gtarget c) h s)
                     else getTooltip_tap (gtarget c) h s)
                      \<lparr>hoverChain := None\<rparr>)
             | Failure e \<Rightarrow>
                 gesture_subscriber
                   ((bare (gtarget c) (gctx c))\<lparr>type := Some (gtype c)\<rparr>)
                   ((if code e \<noteq> EMODENOTFOUND then emit (ConsoleError e) s else s)
                      \<lparr>hoverChain := None\<rparr>)))"

text \<open>
  The hover lookup of docking subscription \<open>d\<close> resolves. A value passes the \<open>tap\<close> of
  \<open>getTooltip\<close> and the docking \<open>tap\<close>, then waits in \<open>zip\<close> for the definition
  response; if that is already there, the pair is mapped and delivered to the subscriber
  and the subscription completes. An error reaches \<open>catchError\<close>.
\<close>

definition on_dock_hover :: "nat \<Rightarrow> Hover notification \<Rightarrow> state \<Rightarrow> state" where
  "on_dock_hover d r s =
     (case dockChain s of
        None \<Rightarrow> s
      | Some c \<Rightarrow>
          if did c \<noteq> d \<or> dhover c \<noteq> None then s
          else
            (case r of
               Value h \<Rightarrow>
                 (let tooltip = getTooltip_map (dtarget c) (dctx c) h;
                      s1 = dock_apply (Some tooltip) (getTooltip_tap (dtarget c) h s)
                  in case ddef c of
                       None \<Rightarrow> s1\<lparr>dockChain := Some (c\<lparr>dhover := Some tooltip\<rparr>)\<rparr>
                     | Some resp \<Rightarrow>
                         dock_apply
                           (Some (tooltip\<lparr>defUrlOrError := def_or_undefined resp\<rparr>))
                           (s1\<lparr>dockChain := None\<rparr>))
             | Failure e \<Rightarrow>
                 dock_apply (Some (bare (dtarget c) (dctx c)))
                   ((if code e \<noteq> EMODENOTFOUND then emit (ConsoleError e) s else s)
                      \<lparr>dockChain := None\<rparr>)))"

text \<open>
  The definition lookup of docking subscription \<open>d\<close> resolves; its own \<open>catchError\<close>
  turns an error into a value. With the hover value already waiting in \<open>zip\<close>, the pair
  is mapped and delivered to the subscriber; otherwise the response waits.
\<close>

definition on_dock_def :: "nat \<Rightarrow> string option notification \<Rightarrow> state \<Rightarrow> state" where
  "on_dock_def d r s =
     (case dockChain s of
        None \<Rightarrow> s
      | Some c \<Rightarrow>
          if did c \<noteq> d \<or> ddef c \<noteq> None then s
          else
            (let resp = (case r of Value u \<Rightarrow> Inr u | Failure e \<Rightarrow> Inl e)
             in case dhover c of
                  None \<Rightarrow> s\<lparr>dockChain := Some (c\<lparr>ddef := Some resp\<rparr>)\<rparr>
                | Some tooltip \<Rightarrow>
                    dock_apply
                      (Some (tooltip\<lparr>defUrlOrError := def_or_undefined resp\<rparr>))
                      (s\<lparr>dockChain := None\<rparr>)))"

text \<open>\<open>mouseout\<close> on the grid, whose elements are \<open>ref\<close>.\<close>

definition on_mouseout :: "element set \<Rightarrow> state \<Rightarrow> state" where
  "on_mouseout ref s =
     (let s1 = s\<lparr>highlight := highlight s - ref\<rparr>
      in if fixedTooltip s1 = None then emit HideTooltip s1 else s1)"

definition handleDismiss :: "state \<Rightarrow> state" where
  "handleDismiss s = setFixedTooltip None s"

text \<open>\<open>keydown\<close> on the window, filtered to the Escape key.\<close>

definition on_keydown :: "string \<Rightarrow> state \<Rightarrow> state" where
  "on_keydown k s = (if k = ''Escape'' then handleDismiss (emit PreventDefault s) else s)"

text \<open>
  A click whose target has the class \<open>diff-hunk__num\<close> (the flag) and the given id.
\<close>

definition on_click_num :: "bool \<Rightarrow> string \<Rightarrow> state \<Rightarrow> state" where
  "on_click_num num_class ident s =
     (if num_class \<and> ident \<noteq> [] then emit (HistoryPush (Hash ident)) s else s)"

definition modified :: "MouseEvent \<Rightarrow> bool" where
  "modified e = (shiftKey e \<or> ctrlKey e \<or> altKey e \<or> metaKey e)"

definition handleGoToDefinition :: "ctx \<Rightarrow> MouseEvent \<Rightarrow> state \<Rightarrow> state" where
  "handleGoToDefinition defCtx e s =
     (let s1 = emit (Log ''GoToDefClicked'' None) s
      in if modified e then s1
         else emit (HistoryPush (AbsoluteBlobURL defCtx))
                (setFixedTooltip None (emit HideTooltip (emit PreventDefault s1))))"

definition handleFindReferences :: "ctx \<Rightarrow> MouseEvent \<Rightarrow> state \<Rightarrow> state" where
  "handleFindReferences c e s =
     (let s1 = emit (Log ''FindRefsClicked'' None) s
      in if modified e then s1
         else emit (HistoryPush (PrettyBlobURL c ''references'')) (emit PreventDefault s1))"

subsection \<open>The machine\<close>

datatype event =
    Gesture gesture_type element "element option" "position option"
  | TimerFired nat
  | HoverResolved nat "Hover notification"
  | DockHoverResolved nat "Hover notification"
  | DockDefResolved nat "string option notification"
  | MouseOut
  | KeyDown string
  | ClickNum bool string
  | GoToDefinition ctx MouseEvent
  | FindReferences ctx MouseEvent
  | Dismiss

fun step :: "Props \<Rightarrow> element set \<Rightarrow> state \<Rightarrow> event \<Rightarrow> state" where
  "step props ref s (Gesture ty t td loc) = on_gesture props ty t td loc s"
| "step props ref s (TimerFired g) = on_timer g s"
| "step props ref s (HoverResolved g r) = on_hover g r s"
| "step props ref s (DockHoverResolved d r) = on_dock_hover d r s"
| "step props ref s (DockDefResolved d r) = on_dock_def d r s"
| "step props ref s MouseOut = on_mouseout ref s"
| "step props ref s (KeyDown k) = on_keydown k s"
| "step props ref s (ClickNum num_class ident) = on_click_num num_class ident s"
| "step props ref s (GoToDefinition c e) = handleGoToDefinition c e s"
| "step props ref s (FindReferences c e) = handleFindReferences c e s"
| "step props ref s Dismiss = handleDismiss s"

definition run :: "Props \<Rightarrow> element set \<Rightarrow> state \<Rightarrow> event list \<Rightarrow> state" where
  "run props ref s es = foldl (step props ref) s es"

text \<open>
  The component before it is mounted, and \<open>setElement(ref)\<close> on it: the \<open>fixedTooltip\<close>
  pipeline starts with null, which its subscriber answers with \<open>setFixedTooltip()\<close>.
\<close>

definition unmounted :: state where
  "unmounted =
     \<lparr> fixedTooltip = None, highlight = {}, sticky = {}, pointer = {}, annotated = {},
       effects = [], nextId = 0, hoverChain = None, dockChain = None \<rparr>"

definition mounted :: state where
  "mounted = dock_apply None unmounted"

subsection \<open>The tooltip state of the specification\<close>

text \<open>
  Modelled from the spec: \<open>updateTooltip\<close> and \<open>hideTooltip\<close> are imported from
  \<open>blob/tooltips\<close>, which is not among the sources. The one tooltip element displays the
  data last handed to \<open>updateTooltip\<close>, as docked or not, unless \<open>hideTooltip\<close> was called
  since.
\<close>

definition shown :: "effect list \<Rightarrow> (TooltipData \<times> bool) option" where
  "shown es =
     foldl (\<lambda>acc e. case e of UpdateTooltip d b \<Rightarrow> Some (d, b) | HideTooltip \<Rightarrow> None | _ \<Rightarrow> acc)
       None es"

text \<open>
  The tooltip state of the specification, read off the component: docked when
  \<open>fixedTooltip\<close> is set, otherwise what the tooltip element displays.
\<close>

datatype TooltipState = Idle | Loading TooltipData | Transient TooltipData | Docked TooltipData

definition tooltipState :: "state \<Rightarrow> TooltipState" where
  "tooltipState s =
     (case fixedTooltip s of
        Some d \<Rightarrow> Docked d
      | None \<Rightarrow>
          (case shown (effects s) of
             None \<Rightarrow> Idle
           | Some (d, b) \<Rightarrow> if loading d then Loading d else Transient d))"

subsection \<open>Docking requests\<close>

text \<open>
  The events on which the subscriber of the gesture pipeline calls \<open>fixedTooltip.next\<close>:
  the loading timer (while its interval is subscribed) and the hover notification of the
  current inner subscription, when its gesture is a click.
\<close>

definition docking_request :: "state \<Rightarrow> event \<Rightarrow> bool" where
  "docking_request s e =
     (case hoverChain s of
        None \<Rightarrow> False
      | Some c \<Rightarrow>
          gtype c = Click \<and>
          (case e of
             TimerFired g \<Rightarrow> g = gid c \<and> timer c
           | HoverResolved g r \<Rightarrow> g = gid c
           | _ \<Rightarrow> False))"

text \<open>The notifications of the two lookups of the current docking subscription.\<close>

definition docking_notification :: "state \<Rightarrow> event \<Rightarrow> bool" where
  "docking_notification s e =
     (case dockChain s of
        None \<Rightarrow> False
      | Some c \<Rightarrow>
          (case e of
             DockHoverResolved d r \<Rightarrow> d = did c
           | DockDefResolved d r \<Rightarrow> d = did c
           | _ \<Rightarrow> False))"

subsection \<open>Predicates of the proofs\<close>

text \<open>
  Inner subscription \<open>g\<close> of the gesture pipeline is over: its number has been given out
  and the current inner subscription, if there is one, is another.
\<close>

definition stale :: "nat \<Rightarrow> state \<Rightarrow> bool" where
  "stale g s = (g < nextId s \<and> (case hoverChain s of None \<Rightarrow> True | Some c \<Rightarrow> gid c \<noteq> g))"

text \<open>
  At most one tooltip: with a tooltip docked, its target is the one element of the sticky
  class and the tooltip element shows that very data as docked; with none docked, no
  element has the sticky class and the tooltip element is hidden or shows a tooltip that
  is not docked.
\<close>

definition one_tooltip :: "state \<Rightarrow> bool" where
  "one_tooltip s =
     (case fixedTooltip s of
        Some d \<Rightarrow> sticky s = {target d} \<and> shown (effects s) = Some (d, True)
      | None \<Rightarrow>
          sticky s = {} \<and>
          (case shown (effects s) of None \<Rightarrow> True | Some (d, b) \<Rightarrow> b = False))"

subsection \<open>Concrete inputs\<close>

text \<open>
  A diff of \<open>old.go\<close> against \<open>new.go\<close>, position A on the new side under element 10,
  position B on the old side under element 20, and a hover response with contents.
\<close>

definition file_of :: "string \<Rightarrow> DiffFile" where
  "file_of p =
     \<lparr> repoPath = ''repo'', repoID = ''1'', rev = ''v1'', commitID = ''c0ffee'',
       filePath = Some p, mode = Some ''go'' \<rparr>"

definition props0 :: Props where
  "props0 = \<lparr> base = file_of ''old.go'', head = file_of ''new.go'' \<rparr>"

definition posA :: position where
  "posA = \<lparr> line = 3, character = 5, part = Some New \<rparr>"

definition posB :: position where
  "posB = \<lparr> line = 8, character = 1, part = Some Old \<rparr>"

definition hv :: Hover where
  "hv = Hover (Some [''doc''])"

definition no_keys :: MouseEvent where
  "no_keys = \<lparr> shiftKey = False, ctrlKey = False, altKey = False, metaKey = False \<rparr>"

definition shift_key :: MouseEvent where
  "shift_key = \<lparr> shiftKey = True, ctrlKey = False, altKey = False, metaKey = False \<rparr>"

text \<open>The inner subscription a click, or a mouseover, on A starts in the mounted component.\<close>

definition chainA :: gesture_chain where
  "chainA = \<lparr> gid = 0, gtype = Click, gtarget = 10, gctx = mk_ctx props0 posA, timer = True \<rparr>"

definition hoverA :: gesture_chain where
  "hoverA =
     \<lparr> gid = 0, gtype = Mouseover, gtarget = 10, gctx = mk_ctx props0 posA, timer = True \<rparr>"

text \<open>
  A click on A whose hover lookups have resolved, the definition lookup of the docking
  still pending.
\<close>

definition tipA :: TooltipData where
  "tipA = getTooltip_map 10 (mk_ctx props0 posA) hv"

definition dockA :: dock_chain where
  "dockA =
     \<lparr> did = 1, dtarget = 10, dctx = mk_ctx props0 posA, dhover = Some tipA, ddef = None \<rparr>"

definition docking_A :: state where
  "docking_A =
     run props0 {10, 20} mounted
       [Gesture Click 10 None (Some posA), HoverResolved 0 (Value hv),
        DockHoverResolved 1 (Value hv)]"

text \<open>
  A docked (no definition target), then a click on B whose gesture hover lookup has
  resolved: the docking of B is under way.
\<close>

definition dockB :: dock_chain where
  "dockB =
     \<lparr> did = 3, dtarget = 20, dctx = mk_ctx props0 posB, dhover = None, ddef = None \<rparr>"

definition docked_A_clicked_B :: state where
  "docked_A_clicked_B =
     run props0 {10, 20} mounted
       [Gesture Click 10 None (Some posA), HoverResolved 0 (Value hv),
        DockHoverResolved 1 (Value hv), DockDefResolved 1 (Value None),
        Gesture Click 20 None (Some posB), HoverResolved 2 (Value hv)]"

text \<open>
  A click on A whose loading timer has fired: the loading data has been handed to the
  docking pipeline, whose lookups for A are pending.
\<close>

definition loadingA :: dock_chain where
  "loadingA =
     \<lparr> did = 1, dtarget = 10, dctx = mk_ctx props0 posA, dhover = None, ddef = None \<rparr>"

definition clicked_A_loading :: state where
  "clicked_A_loading =
     run props0 {10, 20} mounted [Gesture Click 10 None (Some posA), TimerFired 0]"

text \<open>
  A click on A whose docking has received the definition response first, the hover lookup
  of the docking still pending.
\<close>

definition dockA_def_first :: dock_chain where
  "dockA_def_first =
     \<lparr> did = 1, dtarget = 10, dctx = mk_ctx props0 posA, dhover = None,
       ddef = Some (Inr (Some ''/def'')) \<rparr>"

definition docking_A_def_first :: state where
  "docking_A_def_first =
     run props0 {10, 20} mounted
       [Gesture Click 10 None (Some posA), HoverResolved 0 (Value hv),
        DockDefResolved 1 (Value (Some ''/def''))]"

section \<open>Properties of the hunk rows\<close>

lemma split_not_Nil: "split sep xs \<noteq> []"
  by (induction xs) (auto split: list.splits)

lemma split_append_last:
  "sep \<notin> set l \<Longrightarrow> split sep (b @ l) = butlast (split sep b) @ [last (split sep b) @ l]"
proof (induction b)
  case Nil
  then show ?case
    by (induction l) (auto split: list.splits)
next
  case (Cons c b)
  then show ?case
    using split_not_Nil [of sep b] split_not_Nil [of sep "b @ l"]
    by (cases "split sep b") (auto split: list.splits)
qed

lemma length_split: "length (split sep xs) = Suc (length (filter (\<lambda>c. c = sep) xs))"
  using split_not_Nil [of sep]
  by (induction xs) (auto split: list.splits)

lemma slice_0_m1_butlast: "slice_0_m1 xs = butlast xs"
  by (simp add: slice_0_m1_def butlast_conv_take)

lemma hunk_lines_Cons:
  "hunk_lines a ln h st i (l # ls) =
     snd (hunk_line a ln h st l i) # hunk_lines a ln h (fst (hunk_line a ln h st l i)) (Suc i) ls"
  by (simp add: case_prod_beta)

lemma hunk_lines_content: "map content (hunk_lines a ln h st i ls) = ls"
  by (induction ls arbitrary: st i) (auto simp: hunk_line_def Let_def)

lemma hunk_lines_kind: "map row_kind (hunk_lines a ln h st i ls) = map row_tag ls"
  by (induction ls arbitrary: st i)
    (auto simp: hunk_line_def Let_def row_kind_def row_tag_def line0_def split: list.splits)

lemma hunk_lines_length: "length (hunk_lines a ln h st i ls) = length ls"
  by (induction ls arbitrary: st i) (simp_all add: case_prod_beta)

lemma int_of_range: "- 9007199254740992 \<le> int_of x \<and> int_of x \<le> 9007199254740992"
  using int_of [of x] by simp

lemma incr_exact: "int_of x < 9007199254740992 \<Longrightarrow> int_of (incr x) = int_of x + 1"
  by (simp add: incr.rep_eq)

lemma minus_one_incr:
  "int_of x < 9007199254740992 \<Longrightarrow> int_of (minus_one (incr x)) = int_of x"
  using int_of_range [of x] by (simp add: incr.rep_eq minus_one.rep_eq)

lemma hunk_line_counters:
  "fst (hunk_line a ln h (ol, nw) l i) =
     (if line0 l \<noteq> Some (CHR ''+'') then incr ol else ol,
      if line0 l \<noteq> Some (CHR ''-'') then incr nw else nw)"
  by (simp add: hunk_line_def Let_def)

lemma row_tag_line0:
  "row_tag l =
     (if line0 l = Some (CHR '' '') then Some Context
      else if line0 l = Some (CHR ''-'') then Some Removed
      else if line0 l = Some (CHR ''+'') then Some Added else None)"
  by (cases l) (simp_all add: row_tag_def line0_def)

lemma hunk_line_view:
  "int_of ol < 9007199254740992 \<Longrightarrow> int_of nw < 9007199254740992 \<Longrightarrow>
   row_view (snd (hunk_line a True h (ol, nw) l i)) =
     (row_tag l,
      if line0 l \<noteq> Some (CHR ''+'') then Some (int_of ol) else None,
      if line0 l \<noteq> Some (CHR ''-'') then Some (int_of nw) else None)"
  by (simp add: hunk_line_def Let_def row_view_def row_kind_def old_number_def
      new_number_def row_tag_line0 minus_one_incr)

lemma hunk_lines_view:
  "spec_rows (int_of ol) (int_of nw) ls = Some rs \<Longrightarrow>
   int_of ol + int (length ls) \<le> 9007199254740992 \<Longrightarrow>
   int_of nw + int (length ls) \<le> 9007199254740992 \<Longrightarrow>
   map row_view (hunk_lines a True h (ol, nw) i ls) = map (\<lambda>(k, on). (Some k, on)) rs"
proof (induction ls arbitrary: ol nw i rs)
  case Nil
  then show ?case by simp
next
  case (Cons l ls)
  note step = hunk_lines_Cons [of a True h "(ol, nw)" i l ls]
  from Cons.prems(2,3) have lt: "int_of ol < 9007199254740992" "int_of nw < 9007199254740992"
    by simp_all
  note view = hunk_line_view [OF lt, of a h l i]
  from lt have ex: "int_of (incr ol) = int_of ol + 1" "int_of (incr nw) = int_of nw + 1"
    by (simp_all add: incr_exact)
  from Cons.prems(2,3) ex have
    bo: "int_of ol + int (length ls) \<le> 9007199254740992" and
    bn: "int_of nw + int (length ls) \<le> 9007199254740992" and
    bo': "int_of (incr ol) + int (length ls) \<le> 9007199254740992" and
    bn': "int_of (incr nw) + int (length ls) \<le> 9007199254740992"
    by simp_all
  show ?case
  proof (cases "row_tag l")
    case None
    with Cons.prems show ?thesis by simp
  next
    case (Some k)
    show ?thesis
    proof (cases k)
      case Context
      from Cons.prems(1) Some Context obtain rs' where
        rs: "rs = (Context, Some (int_of ol), Some (int_of nw)) # rs'" and
        rec: "spec_rows (int_of ol + 1) (int_of nw + 1) ls = Some rs'"
        by auto
      from rec ex have rec': "spec_rows (int_of (incr ol)) (int_of (incr nw)) ls = Some rs'"
        by simp
      from Some Context have l0: "line0 l = Some (CHR '' '')"
        by (simp add: row_tag_line0 split: if_splits)
      show ?thesis
        using Cons.IH [OF rec' bo' bn', of "Suc i"] Some Context
        by (simp only: step list.map view hunk_line_counters rs l0) simp
    next
      case Added
      from Cons.prems(1) Some Added obtain rs' where
        rs: "rs = (Added, None, Some (int_of nw)) # rs'" and
        rec: "spec_rows (int_of ol) (int_of nw + 1) ls = Some rs'"
        by auto
      from rec ex have rec': "spec_rows (int_of ol) (int_of (incr nw)) ls = Some rs'"
        by simp
      from Some Added have l0: "line0 l = Some (CHR ''+'')"
        by (simp add: row_tag_line0 split: if_splits)
      show ?thesis
        using Cons.IH [OF rec' bo bn', of "Suc i"] Some Added
        by (simp only: step list.map view hunk_line_counters rs l0) simp
    next
      case Removed
      from Cons.prems(1) Some Removed obtain rs' where
        rs: "rs = (Removed, Some (int_of ol), None) # rs'" and
        rec: "spec_rows (int_of ol + 1) (int_of nw) ls = Some rs'"
        by auto
      from rec ex have rec': "spec_rows (int_of (incr ol)) (int_of nw) ls = Some rs'"
        by simp
      from Some Removed have l0: "line0 l = Some (CHR ''-'')"
        by (simp add: row_tag_line0 split: if_splits)
      show ?thesis
        using Cons.IH [OF rec' bo' bn, of "Suc i"] Some Removed
        by (simp only: step list.map view hunk_line_counters rs l0) simp
    qed
  qed
qed

lemma hunk_lines_nth:
  "j < length ls \<Longrightarrow>
   int_of ol + int (length ls) \<le> 9007199254740992 \<Longrightarrow>
   int_of nw + int (length ls) \<le> 9007199254740992 \<Longrightarrow>
   row_view (hunk_lines a True h (ol, nw) i ls ! j) =
     (row_tag (ls ! j),
      if line0 (ls ! j) \<noteq> Some (CHR ''+'')
      then Some (int_of ol +
                 int (length (filter (\<lambda>l. line0 l \<noteq> Some (CHR ''+'')) (take j ls))))
      else None,
      if line0 (ls ! j) \<noteq> Some (CHR ''-'')
      then Some (int_of nw +
                 int (length (filter (\<lambda>l. line0 l \<noteq> Some (CHR ''-'')) (take j ls))))
      else None)"
proof (induction ls arbitrary: j ol nw i)
  case Nil
  then show ?case by simp
next
  case (Cons l ls)
  note step = hunk_lines_Cons [of a True h "(ol, nw)" i l ls]
  from Cons.prems(2,3) have lt: "int_of ol < 9007199254740992" "int_of nw < 9007199254740992"
    by simp_all
  note view = hunk_line_view [OF lt, of a h l i]
  show ?case
  proof (cases j)
    case 0
    then show ?thesis
      by (simp only: step nth_Cons_0 view) simp
  next
    case (Suc j')
    with Cons.prems(1) have j': "j' < length ls" by simp
    let ?ol = "if line0 l \<noteq> Some (CHR ''+'') then incr ol else ol"
    let ?nw = "if line0 l \<noteq> Some (CHR ''-'') then incr nw else nw"
    from lt have o: "int_of ?ol = (if line0 l \<noteq> Some (CHR ''+'') then int_of ol + 1 else int_of ol)"
      and n: "int_of ?nw = (if line0 l \<noteq> Some (CHR ''-'') then int_of nw + 1 else int_of nw)"
      by (simp_all add: incr_exact)
    from Cons.prems(2,3) o n have
      bo: "int_of ?ol + int (length ls) \<le> 9007199254740992" and
      bn: "int_of ?nw + int (length ls) \<le> 9007199254740992"
      by (simp_all split: if_splits)
    show ?thesis
      using Cons.IH [OF j' bo bn, of "Suc i"] o n
      by (simp only: step Suc nth_Cons_Suc hunk_line_counters) (simp split: if_splits)
  qed
qed

lemma row_tag_None_line0:
  "row_tag l = None \<Longrightarrow> line0 l \<noteq> Some (CHR ''+'') \<and> line0 l \<noteq> Some (CHR ''-'')"
  by (simp add: row_tag_line0 split: if_splits)

text \<open>
  C2, as the claim states it, fails where the counters leave the range JavaScript numbers
  count exactly. With both start lines \<open>2^53\<close> and the body \<open>" a\n b\n"\<close> the numbering
  model gives context \<open>(2^53, 2^53)\<close> and context \<open>(2^53 + 1, 2^53 + 1)\<close>, while in the
  source \<open>++\<close> leaves each counter at \<open>2^53\<close> and both rows show \<open>2^53 - 1\<close>.
\<close>

theorem C2_counters_stop_at_the_limit_counterexample:
  "int_of (startLine (oldRange (hunk_of 9007199254740992 9007199254740992 '' a\<newline> b\<newline>''))) =
     9007199254740992 \<and>
   int_of (startLine (newRange (hunk_of 9007199254740992 9007199254740992 '' a\<newline> b\<newline>''))) =
     9007199254740992 \<and>
   spec_rows 9007199254740992 9007199254740992
     (slice_0_m1 (split (CHR 0x0A) '' a\<newline> b\<newline>'')) =
     Some [(Context, Some 9007199254740992, Some 9007199254740992),
           (Context, Some 9007199254740993, Some 9007199254740993)] \<and>
   map row_view
     (DiffHunk ''f'' (hunk_of 9007199254740992 9007199254740992 '' a\<newline> b\<newline>'') True '''') =
     [(Some Context, Some 9007199254740991, Some 9007199254740991),
      (Some Context, Some 9007199254740991, Some 9007199254740991)]"
  by (simp add: DiffHunk_def hunk_of_def slice_0_m1_def hunk_line_def line0_def row_view_def Let_def
      row_kind_def old_number_def new_number_def row_tag_def incr.rep_eq minus_one.rep_eq
      number.rep_eq)

text \<open>
  C2, amended. Line numbers are counted in JavaScript numbers, which count exactly up to
  \<open>2^53\<close>.
  For every hunk whose counters stay in that range (each start line plus the number of
  rows is at most \<open>2^53\<close>) and whose rendered lines all carry one of the three markers,
  the rows \<open>DiffHunk\<close> renders show exactly the kinds and numbers of the specification's
  numbering model started at the hunk's old and new start lines; and the body
  \<open>" 1\n-2\n+3\n+4\n"\<close> with both start lines 1 gives context (1, 1), removed (2, none),
  added (none, 2), added (none, 3).
\<close>

theorem C2_numbering_follows_spec:
  "(spec_rows (int_of (startLine (oldRange hunk))) (int_of (startLine (newRange hunk)))
      (slice_0_m1 (split (CHR 0x0A) (body hunk))) = Some rs \<and>
    int_of (startLine (oldRange hunk)) +
      int (length (slice_0_m1 (split (CHR 0x0A) (body hunk)))) \<le> 9007199254740992 \<and>
    int_of (startLine (newRange hunk)) +
      int (length (slice_0_m1 (split (CHR 0x0A) (body hunk)))) \<le> 9007199254740992 \<longrightarrow>
    map row_view (DiffHunk a hunk True h) = map (\<lambda>(k, on). (Some k, on)) rs) \<and>
   map row_view (DiffHunk a (hunk_of 1 1 '' 1\<newline>-2\<newline>+3\<newline>+4\<newline>'') True h) =
     [(Some Context, Some 1, Some 1), (Some Removed, Some 2, None),
      (Some Added, None, Some 2), (Some Added, None, Some 3)]"
proof
  show "spec_rows (int_of (startLine (oldRange hunk))) (int_of (startLine (newRange hunk)))
      (slice_0_m1 (split (CHR 0x0A) (body hunk))) = Some rs \<and>
    int_of (startLine (oldRange hunk)) +
      int (length (slice_0_m1 (split (CHR 0x0A) (body hunk)))) \<le> 9007199254740992 \<and>
    int_of (startLine (newRange hunk)) +
      int (length (slice_0_m1 (split (CHR 0x0A) (body hunk)))) \<le> 9007199254740992 \<longrightarrow>
    map row_view (DiffHunk a hunk True h) = map (\<lambda>(k, on). (Some k, on)) rs"
    by (simp add: DiffHunk_def hunk_lines_view)
  have one: "int_of (number 1) = 1"
    by (simp add: number.rep_eq)
  have sp: "spec_rows (int_of (number 1)) (int_of (number 1))
      (slice_0_m1 (split (CHR 0x0A) '' 1\<newline>-2\<newline>+3\<newline>+4\<newline>'')) =
      Some [(Context, Some 1, Some 1), (Removed, Some 2, None),
            (Added, None, Some 2), (Added, None, Some 3)]"
    by (simp add: one slice_0_m1_def row_tag_def)
  have b: "int_of (number 1) +
      int (length (slice_0_m1 (split (CHR 0x0A) '' 1\<newline>-2\<newline>+3\<newline>+4\<newline>''))) \<le>
      9007199254740992"
    by (simp add: one slice_0_m1_def)
  show "map row_view (DiffHunk a (hunk_of 1 1 '' 1\<newline>-2\<newline>+3\<newline>+4\<newline>'') True h) =
     [(Some Context, Some 1, Some 1), (Some Removed, Some 2, None),
      (Some Added, None, Some 2), (Some Added, None, Some 3)]"
    using hunk_lines_view [OF sp b b, of a h 0]
    by (simp add: DiffHunk_def hunk_of_def)
qed

theorem C2_numbering_follows_spec_witness:
  "spec_rows (int_of (startLine (oldRange (hunk_of 5 7 ''+a\<newline> b\<newline>-c\<newline>''))))
      (int_of (startLine (newRange (hunk_of 5 7 ''+a\<newline> b\<newline>-c\<newline>''))))
      (slice_0_m1 (split (CHR 0x0A) (body (hunk_of 5 7 ''+a\<newline> b\<newline>-c\<newline>'')))) =
     Some [(Added, None, Some 7), (Context, Some 5, Some 8), (Removed, Some 6, None)] \<and>
   int_of (startLine (oldRange (hunk_of 5 7 ''+a\<newline> b\<newline>-c\<newline>''))) +
     int (length (slice_0_m1 (split (CHR 0x0A) (body (hunk_of 5 7 ''+a\<newline> b\<newline>-c\<newline>''))))) \<le>
     9007199254740992 \<and>
   int_of (startLine (newRange (hunk_of 5 7 ''+a\<newline> b\<newline>-c\<newline>''))) +
     int (length (slice_0_m1 (split (CHR 0x0A) (body (hunk_of 5 7 ''+a\<newline> b\<newline>-c\<newline>''))))) \<le>
     9007199254740992 \<and>
   map row_view (DiffHunk ''f'' (hunk_of 5 7 ''+a\<newline> b\<newline>-c\<newline>'') True ''#fL5'') =
     [(Some Added, None, Some 7), (Some Context, Some 5, Some 8), (Some Removed, Some 6, None)]"
proof -
  have sp: "spec_rows (int_of (startLine (oldRange (hunk_of 5 7 ''+a\<newline> b\<newline>-c\<newline>''))))
      (int_of (startLine (newRange (hunk_of 5 7 ''+a\<newline> b\<newline>-c\<newline>''))))
      (slice_0_m1 (split (CHR 0x0A) (body (hunk_of 5 7 ''+a\<newline> b\<newline>-c\<newline>'')))) =
     Some [(Added, None, Some 7), (Context, Some 5, Some 8), (Removed, Some 6, None)]"
    by (simp add: hunk_of_def slice_0_m1_def row_tag_def number.rep_eq)
  have bo: "int_of (startLine (oldRange (hunk_of 5 7 ''+a\<newline> b\<newline>-c\<newline>''))) +
     int (length (slice_0_m1 (split (CHR 0x0A) (body (hunk_of 5 7 ''+a\<newline> b\<newline>-c\<newline>''))))) \<le>
     9007199254740992"
    by (simp add: hunk_of_def slice_0_m1_def number.rep_eq)
  have bn: "int_of (startLine (newRange (hunk_of 5 7 ''+a\<newline> b\<newline>-c\<newline>''))) +
     int (length (slice_0_m1 (split (CHR 0x0A) (body (hunk_of 5 7 ''+a\<newline> b\<newline>-c\<newline>''))))) \<le>
     9007199254740992"
    by (simp add: hunk_of_def slice_0_m1_def number.rep_eq)
  show ?thesis
    using sp bo bn C2_numbering_follows_spec [of "hunk_of 5 7 ''+a\<newline> b\<newline>-c\<newline>''"
        "[(Added, None, Some 7), (Context, Some 5, Some 8), (Removed, Some 6, None)]"
        "''f''" "''#fL5''"]
    by simp
qed

text \<open>
  C5, as the claim states it, fails: the body \<open>"x\n+a\n"\<close> has a first line whose marker
  is none of the three, and the hunk is still rendered row by row, the malformed line
  numbered 1 on both sides and the next line labelled as an addition with new number 2.
\<close>

theorem C5_malformed_line_counterexample:
  "row_tag ''x'' = None \<and>
   slice_0_m1 (split (CHR 0x0A) ''x\<newline>+a\<newline>'') = [''x'', ''+a''] \<and>
   map row_view (DiffHunk ''f'' (hunk_of 1 1 ''x\<newline>+a\<newline>'') True '''') =
     [(None, Some 1, Some 1), (Some Added, None, Some 2)]"
  by (simp add: row_tag_def slice_0_m1_def DiffHunk_def hunk_of_def hunk_line_def line0_def
      row_view_def row_kind_def old_number_def new_number_def num_str_def Let_def
      incr.rep_eq minus_one.rep_eq number.rep_eq)

text \<open>
  C5, amended. A line whose leading character is none of space, minus and plus (the empty
  line included) raises no error: every line of the hunk still gets its row, and the row
  of the malformed line has its text as content and none of the three kind classes.
  While the counters stay in the range JavaScript numbers count exactly (each start line
  plus the number of rows at most \<open>2^53\<close>), that row has a number on both sides, each the
  start line plus the count of the earlier lines that advance that side.
\<close>

theorem C5_malformed_line_rendered:
  assumes "ls = slice_0_m1 (split (CHR 0x0A) (body hunk))"
    and "j < length ls"
    and "row_tag (ls ! j) = None"
  shows "length (DiffHunk a hunk True h) = length ls \<and>
    content (DiffHunk a hunk True h ! j) = ls ! j \<and>
    row_kind (DiffHunk a hunk True h ! j) = None \<and>
    (int_of (startLine (oldRange hunk)) + int (length ls) \<le> 9007199254740992 \<and>
     int_of (startLine (newRange hunk)) + int (length ls) \<le> 9007199254740992 \<longrightarrow>
     row_view (DiffHunk a hunk True h ! j) =
       (None,
        Some (int_of (startLine (oldRange hunk)) +
              int (length (filter (\<lambda>l. line0 l \<noteq> Some (CHR ''+'')) (take j ls)))),
        Some (int_of (startLine (newRange hunk)) +
              int (length (filter (\<lambda>l. line0 l \<noteq> Some (CHR ''-'')) (take j ls))))))"
proof -
  let ?rows = "hunk_lines a True h (startLine (oldRange hunk), startLine (newRange hunk)) 0 ls"
  have rows: "DiffHunk a hunk True h = ?rows"
    by (simp add: DiffHunk_def assms(1))
  have "content (?rows ! j) = map content ?rows ! j"
    using assms(2) by (simp add: hunk_lines_length)
  then have c: "content (?rows ! j) = ls ! j"
    by (simp add: hunk_lines_content)
  have "row_kind (?rows ! j) = map row_kind ?rows ! j"
    using assms(2) by (simp add: hunk_lines_length)
  then have k: "row_kind (?rows ! j) = None"
    using assms(2,3) by (simp add: hunk_lines_kind)
  have v: "row_view (?rows ! j) =
       (None,
        Some (int_of (startLine (oldRange hunk)) +
              int (length (filter (\<lambda>l. line0 l \<noteq> Some (CHR ''+'')) (take j ls)))),
        Some (int_of (startLine (newRange hunk)) +
              int (length (filter (\<lambda>l. line0 l \<noteq> Some (CHR ''-'')) (take j ls)))))"
    if "int_of (startLine (oldRange hunk)) + int (length ls) \<le> 9007199254740992"
      and "int_of (startLine (newRange hunk)) + int (length ls) \<le> 9007199254740992"
    using hunk_lines_nth [OF assms(2) that, of a h 0] row_tag_None_line0 [OF assms(3)] assms(3)
    by simp
  show ?thesis
    using c k v by (simp add: rows hunk_lines_length)
qed

theorem C5_malformed_line_rendered_witness:
  "[''+a'', ''x'', ''-b''] =
     slice_0_m1 (split (CHR 0x0A) (body (hunk_of 3 9 ''+a\<newline>x\<newline>-b\<newline>''))) \<and>
   (1::nat) < length [''+a'', ''x'', ''-b''] \<and>
   row_tag ([''+a'', ''x'', ''-b''] ! 1) = None \<and>
   int_of (startLine (oldRange (hunk_of 3 9 ''+a\<newline>x\<newline>-b\<newline>''))) +
     int (length [''+a'', ''x'', ''-b'']) \<le> 9007199254740992 \<and>
   int_of (startLine (newRange (hunk_of 3 9 ''+a\<newline>x\<newline>-b\<newline>''))) +
     int (length [''+a'', ''x'', ''-b'']) \<le> 9007199254740992 \<and>
   length (DiffHunk ''f'' (hunk_of 3 9 ''+a\<newline>x\<newline>-b\<newline>'') True '''') = 3 \<and>
   content (DiffHunk ''f'' (hunk_of 3 9 ''+a\<newline>x\<newline>-b\<newline>'') True '''' ! 1) = ''x'' \<and>
   row_view (DiffHunk ''f'' (hunk_of 3 9 ''+a\<newline>x\<newline>-b\<newline>'') True '''' ! 1) =
     (None, Some 3, Some 10)"
proof -
  have a1: "[''+a'', ''x'', ''-b''] =
      slice_0_m1 (split (CHR 0x0A) (body (hunk_of 3 9 ''+a\<newline>x\<newline>-b\<newline>'')))"
    by (simp add: hunk_of_def slice_0_m1_def)
  have a2: "(1::nat) < length [''+a'', ''x'', ''-b'']"
    by simp
  have a3: "row_tag ([''+a'', ''x'', ''-b''] ! 1) = None"
    by (simp add: row_tag_def)
  show ?thesis
    using a1 a2 a3 C5_malformed_line_rendered [OF a1 a2 a3, of "''f''" "''''"]
    by (simp add: hunk_of_def line0_def slice_0_m1_def number.rep_eq)
qed

text \<open>
  C10. The rows rendered are the segments of the body between line feeds with the last
  segment left out, whatever it is: there are as many rows as line feeds in the body, and
  text after the last line feed (a last line without terminator) changes none of the
  rows, so it is neither rendered nor counted.
\<close>

theorem C10_last_segment_dropped:
  "map content (DiffHunk a hunk ln h) = butlast (split (CHR 0x0A) (body hunk)) \<and>
   length (DiffHunk a hunk ln h) = length (filter (\<lambda>c. c = CHR 0x0A) (body hunk)) \<and>
   (CHR 0x0A \<notin> set l \<longrightarrow>
      DiffHunk a (hunk\<lparr>body := body hunk @ l\<rparr>) ln h = DiffHunk a hunk ln h)"
  by (simp add: DiffHunk_def hunk_lines_content hunk_lines_length split_append_last
      slice_0_m1_butlast length_split)

theorem C10_last_segment_dropped_witness:
  "CHR 0x0A \<notin> set ''+b'' \<and>
   map content (DiffHunk ''f'' (hunk_of 1 1 '' a\<newline>+b'') True '''') = ['' a''] \<and>
   DiffHunk ''f''
     ((hunk_of 1 1 '' a\<newline>'')\<lparr>body := body (hunk_of 1 1 '' a\<newline>'') @ ''+b''\<rparr>) True '''' =
     DiffHunk ''f'' (hunk_of 1 1 '' a\<newline>'') True ''''"
  using C10_last_segment_dropped [of "''f''" "hunk_of 1 1 '' a\<newline>''" True "''''" "''+b''"]
  by (simp add: hunk_of_def DiffHunk_def slice_0_m1_def hunk_line_def)

section \<open>Properties of the tooltip coordinator\<close>

lemmas handler_defs =
  emit_def setFixedTooltip_def getTooltip_tap_def getTooltip_map_def bare_def dock_apply_def
  def_or_undefined_def fixedTooltip_next_def gesture_subscriber_def mk_ctx_def on_gesture_def
  on_timer_def on_hover_def on_dock_hover_def on_dock_def_def on_mouseout_def handleDismiss_def
  on_keydown_def on_click_num_def modified_def handleGoToDefinition_def
  handleFindReferences_def isEmptyHover_def

lemmas example_defs =
  file_of_def props0_def posA_def posB_def hv_def no_keys_def mounted_def unmounted_def run_def
  EMODENOTFOUND_def

lemma shown_append:
  "shown (es @ es') =
     foldl (\<lambda>acc e. case e of UpdateTooltip d b \<Rightarrow> Some (d, b) | HideTooltip \<Rightarrow> None | _ \<Rightarrow> acc)
       (shown es) es'"
  by (simp add: shown_def)

subsection \<open>Identity of the inner subscriptions\<close>

lemma gesture_subscriber_ids:
  "hoverChain (gesture_subscriber d s) = hoverChain s \<and>
   nextId s \<le> nextId (gesture_subscriber d s)"
  by (simp add: gesture_subscriber_def fixedTooltip_next_def emit_def Let_def)

lemma dock_apply_ids:
  "hoverChain (dock_apply d s) = hoverChain s \<and> nextId (dock_apply d s) = nextId s"
  by (simp add: dock_apply_def setFixedTooltip_def emit_def Let_def split: option.splits)

lemma setFixedTooltip_ids:
  "hoverChain (setFixedTooltip d s) = hoverChain s \<and> nextId (setFixedTooltip d s) = nextId s"
  by (simp add: setFixedTooltip_def emit_def Let_def split: option.splits)

lemma stale_gesture_subscriber:
  "stale g s \<Longrightarrow> stale g (gesture_subscriber d s)"
  using gesture_subscriber_ids [of d s] by (simp add: stale_def)

lemma stale_on_gesture: "stale g s \<Longrightarrow> stale g (on_gesture props ty t td loc s)"
  by (auto simp: stale_def on_gesture_def emit_def Let_def split: option.splits)

lemma stale_on_timer: "stale g s \<Longrightarrow> stale g (on_timer g' s)"
proof (cases "hoverChain s")
  case None
  then show "stale g s \<Longrightarrow> ?thesis" by (simp add: on_timer_def)
next
  case (Some c)
  assume st: "stale g s"
  have "stale g (s\<lparr>hoverChain := Some (c\<lparr>timer := False\<rparr>)\<rparr>)"
    using st Some by (simp add: stale_def)
  then show ?thesis
    using st Some by (simp add: on_timer_def stale_gesture_subscriber)
qed

lemma stale_on_hover: "stale g s \<Longrightarrow> stale g (on_hover g' r s)"
proof (cases "hoverChain s")
  case None
  then show "stale g s \<Longrightarrow> ?thesis" by (simp add: on_hover_def)
next
  case (Some c)
  assume st: "stale g s"
  have a: "stale g (x\<lparr>hoverChain := None\<rparr>)" if "nextId x = nextId s" for x
    using st that by (simp add: stale_def)
  show ?thesis
    using st Some
    by (auto simp: on_hover_def getTooltip_tap_def emit_def
        intro!: stale_gesture_subscriber a split: notification.splits)
qed

lemma stale_on_dock_hover: "stale g s \<Longrightarrow> stale g (on_dock_hover d r s)"
  by (auto simp: on_dock_hover_def Let_def stale_def dock_apply_ids getTooltip_tap_def emit_def
      split: option.splits notification.splits)

lemma stale_on_dock_def: "stale g s \<Longrightarrow> stale g (on_dock_def d r s)"
  by (auto simp: on_dock_def_def Let_def stale_def dock_apply_ids
      split: option.splits notification.splits)

lemma stale_step: "stale g s \<Longrightarrow> stale g (step props ref s e)"
proof (cases e)
  case (Gesture ty t td loc)
  then show "stale g s \<Longrightarrow> ?thesis" by (simp add: stale_on_gesture)
next
  case (TimerFired g')
  then show "stale g s \<Longrightarrow> ?thesis" by (simp add: stale_on_timer)
next
  case (HoverResolved g' r)
  then show "stale g s \<Longrightarrow> ?thesis" by (simp add: stale_on_hover)
next
  case (DockHoverResolved d r)
  then show "stale g s \<Longrightarrow> ?thesis" by (simp add: stale_on_dock_hover)
next
  case (DockDefResolved d r)
  then show "stale g s \<Longrightarrow> ?thesis" by (simp add: stale_on_dock_def)
next
  case MouseOut
  then show "stale g s \<Longrightarrow> ?thesis"
    by (simp add: on_mouseout_def emit_def stale_def Let_def)
next
  case (KeyDown k)
  then show "stale g s \<Longrightarrow> ?thesis"
    by (simp add: on_keydown_def handleDismiss_def emit_def stale_def setFixedTooltip_ids)
next
  case (ClickNum b i)
  then show "stale g s \<Longrightarrow> ?thesis"
    by (simp add: on_click_num_def emit_def stale_def)
next
  case (GoToDefinition c m)
  then show "stale g s \<Longrightarrow> ?thesis"
    by (simp add: handleGoToDefinition_def emit_def stale_def setFixedTooltip_ids Let_def)
next
  case (FindReferences c m)
  then show "stale g s \<Longrightarrow> ?thesis"
    by (simp add: handleFindReferences_def emit_def stale_def Let_def)
next
  case Dismiss
  then show "stale g s \<Longrightarrow> ?thesis"
    by (simp add: handleDismiss_def stale_def setFixedTooltip_ids)
qed

lemma stale_run: "stale g s \<Longrightarrow> stale g (run props ref s es)"
  unfolding run_def
  by (induction es arbitrary: s) (simp_all add: stale_step)

lemma stale_noop: "stale g s \<Longrightarrow> on_hover g r s = s \<and> on_timer g s = s"
  by (auto simp: stale_def on_hover_def on_timer_def split: option.splits)

lemma nextId_step: "nextId s \<le> nextId (step props ref s e)"
proof (cases e)
  case (Gesture ty t td loc)
  then show ?thesis
    by (auto simp: on_gesture_def emit_def Let_def split: option.splits)
next
  case (TimerFired g)
  have a: "nextId s \<le> nextId (gesture_subscriber d x)" if "nextId x = nextId s" for d x
    using gesture_subscriber_ids [of d x] that by simp
  from TimerFired show ?thesis
    by (auto simp: on_timer_def split: option.splits intro!: a)
next
  case (HoverResolved g r)
  have a: "nextId s \<le> nextId (gesture_subscriber d x)" if "nextId x = nextId s" for d x
    using gesture_subscriber_ids [of d x] that by simp
  from HoverResolved show ?thesis
    by (auto simp: on_hover_def getTooltip_tap_def emit_def
        split: option.splits notification.splits intro!: a)
next
  case (DockHoverResolved d r)
  then show ?thesis
    by (auto simp: on_dock_hover_def Let_def dock_apply_ids getTooltip_tap_def emit_def
        split: option.splits notification.splits)
next
  case (DockDefResolved d r)
  then show ?thesis
    by (auto simp: on_dock_def_def Let_def dock_apply_ids
        split: option.splits notification.splits)
next
  case MouseOut
  then show ?thesis by (simp add: on_mouseout_def emit_def Let_def)
next
  case (KeyDown k)
  then show ?thesis
    by (simp add: on_keydown_def handleDismiss_def emit_def setFixedTooltip_ids)
next
  case (ClickNum b i)
  then show ?thesis by (simp add: on_click_num_def emit_def)
next
  case (GoToDefinition c m)
  then show ?thesis
    by (simp add: handleGoToDefinition_def emit_def setFixedTooltip_ids Let_def)
next
  case (FindReferences c m)
  then show ?thesis by (simp add: handleFindReferences_def emit_def Let_def)
next
  case Dismiss
  then show ?thesis by (simp add: handleDismiss_def setFixedTooltip_ids)
qed

lemma nextId_run: "nextId s \<le> nextId (run props ref s es)"
  unfolding run_def
proof (induction es arbitrary: s)
  case Nil
  then show ?case by simp
next
  case (Cons e es)
  have "nextId s \<le> nextId (step props ref s e)" by (rule nextId_step)
  also have "\<dots> \<le> nextId (foldl (step props ref) (step props ref s e) es)" by (rule Cons.IH)
  finally show ?case by simp
qed

lemma gesture_starts:
  "part loc \<noteq> None \<Longrightarrow>
   hoverChain (on_gesture props ty t td (Some loc) s) =
     Some \<lparr> gid = nextId s, gtype = ty, gtarget = t, gctx = mk_ctx props loc, timer = True \<rparr> \<and>
   nextId (on_gesture props ty t td (Some loc) s) = Suc (nextId s) \<and>
   dockChain (on_gesture props ty t td (Some loc) s) = dockChain s"
  by (auto simp: on_gesture_def emit_def Let_def split: option.splits)

lemma gesture_supersedes:
  "g < nextId s \<Longrightarrow> part loc \<noteq> None \<Longrightarrow> stale g (on_gesture props ty t td (Some loc) s)"
  using gesture_starts [of loc props ty t td s] by (simp add: stale_def)

lemma hover_retires: "g < nextId s \<Longrightarrow> stale g (on_hover g r s)"
proof (cases "hoverChain s")
  case None
  then show "g < nextId s \<Longrightarrow> ?thesis" by (simp add: on_hover_def stale_def)
next
  case (Some c)
  assume g: "g < nextId s"
  have a: "stale g (gesture_subscriber d (x\<lparr>hoverChain := None\<rparr>))"
    if "nextId x = nextId s" for d x
    using g that by (intro stale_gesture_subscriber) (simp add: stale_def)
  show ?thesis
  proof (cases "gid c = g")
    case True
    with Some show ?thesis
      by (simp add: on_hover_def getTooltip_tap_def emit_def a split: notification.splits)
  next
    case False
    with Some g show ?thesis by (simp add: on_hover_def stale_def)
  qed
qed

subsection \<open>What replaces the docking subscription\<close>

lemma dockChain_setFixedTooltip: "dockChain (setFixedTooltip d s) = dockChain s"
  by (simp add: setFixedTooltip_def emit_def Let_def split: option.splits)

lemma dockChain_dock_apply: "dockChain (dock_apply d s) = dockChain s"
  by (simp add: dock_apply_def dockChain_setFixedTooltip emit_def split: option.splits)

lemma dockChain_gesture_subscriber:
  "dockChain (gesture_subscriber d s) =
     (if type d = Some Click
      then Some \<lparr> did = nextId s, dtarget = target d, dctx = ctx d, dhover = None, ddef = None \<rparr>
      else dockChain s)"
  by (simp add: gesture_subscriber_def fixedTooltip_next_def emit_def Let_def)

lemma dockChain_kept:
  assumes "\<not> docking_request s e" and "\<not> docking_notification s e"
  shows "dockChain (step props ref s e) = dockChain s"
proof (cases e)
  case (Gesture ty t td loc)
  then show ?thesis
    by (auto simp: on_gesture_def emit_def Let_def split: option.splits)
next
  case (TimerFired g)
  with assms(1) show ?thesis
    by (auto simp: on_timer_def docking_request_def dockChain_gesture_subscriber bare_def
        split: option.splits)
next
  case (HoverResolved g r)
  with assms(1) show ?thesis
    by (auto simp: on_hover_def docking_request_def dockChain_gesture_subscriber bare_def
        getTooltip_map_def getTooltip_tap_def emit_def split: option.splits notification.splits)
next
  case (DockHoverResolved d r)
  with assms(2) show ?thesis
    by (auto simp: on_dock_hover_def docking_notification_def split: option.splits)
next
  case (DockDefResolved d r)
  with assms(2) show ?thesis
    by (auto simp: on_dock_def_def docking_notification_def split: option.splits)
next
  case MouseOut
  then show ?thesis by (simp add: on_mouseout_def emit_def Let_def)
next
  case (KeyDown k)
  then show ?thesis
    by (simp add: on_keydown_def handleDismiss_def dockChain_setFixedTooltip emit_def)
next
  case (ClickNum b i)
  then show ?thesis by (simp add: on_click_num_def emit_def)
next
  case (GoToDefinition c m)
  then show ?thesis
    by (simp add: handleGoToDefinition_def dockChain_setFixedTooltip emit_def Let_def)
next
  case (FindReferences c m)
  then show ?thesis by (simp add: handleFindReferences_def emit_def Let_def)
next
  case Dismiss
  then show ?thesis by (simp add: handleDismiss_def dockChain_setFixedTooltip)
qed

lemma dockChain_replaced:
  assumes "docking_request s e"
  shows "map_option did (dockChain (step props ref s e)) = Some (nextId s)"
proof (cases e)
  case (TimerFired g)
  with assms show ?thesis
    by (auto simp: on_timer_def docking_request_def dockChain_gesture_subscriber bare_def
        split: option.splits)
next
  case (HoverResolved g r)
  with assms show ?thesis
    by (auto simp: on_hover_def docking_request_def dockChain_gesture_subscriber bare_def
        getTooltip_map_def getTooltip_tap_def emit_def split: option.splits notification.splits)
qed (use assms in \<open>auto simp: docking_request_def split: option.splits\<close>)

subsection \<open>One tooltip at a time\<close>

lemma one_tooltip_fields:
  "fixedTooltip s' = fixedTooltip s \<Longrightarrow> sticky s' = sticky s \<Longrightarrow>
   shown (effects s') = shown (effects s) \<Longrightarrow> one_tooltip s' = one_tooltip s"
  by (simp add: one_tooltip_def split: option.splits)

lemma one_tooltip_emit:
  "shown (effects s @ [e]) = shown (effects s) \<Longrightarrow> one_tooltip (emit e s) = one_tooltip s"
  by (rule one_tooltip_fields) (simp_all add: emit_def)

lemma one_tooltip_setFixedTooltip_None: "one_tooltip (setFixedTooltip None s)"
  by (simp add: one_tooltip_def setFixedTooltip_def emit_def shown_append Let_def)

lemma one_tooltip_docked:
  "one_tooltip (emit (UpdateTooltip d True) (setFixedTooltip (Some d) s))"
  by (simp add: one_tooltip_def setFixedTooltip_def emit_def shown_append Let_def)

lemma one_tooltip_dock_apply: "one_tooltip (dock_apply data s)"
  by (simp add: dock_apply_def one_tooltip_setFixedTooltip_None one_tooltip_docked
      split: option.splits)

lemma one_tooltip_gesture_subscriber:
  "one_tooltip s \<Longrightarrow> one_tooltip (gesture_subscriber d s)"
  by (auto simp: one_tooltip_def gesture_subscriber_def fixedTooltip_next_def emit_def
      shown_append Let_def split: option.splits)

lemma one_tooltip_step: "one_tooltip s \<Longrightarrow> one_tooltip (step props ref s e)"
proof (cases e)
  case (Gesture ty t td loc)
  then show "one_tooltip s \<Longrightarrow> ?thesis"
    by (auto simp: one_tooltip_def on_gesture_def emit_def shown_append Let_def
        split: option.splits)
next
  case (TimerFired g)
  have a: "one_tooltip (x\<lparr>hoverChain := y\<rparr>) = one_tooltip x" for x y
    by (rule one_tooltip_fields) simp_all
  from TimerFired show "one_tooltip s \<Longrightarrow> ?thesis"
    by (auto simp: on_timer_def a intro!: one_tooltip_gesture_subscriber split: option.splits)
next
  case (HoverResolved g r)
  have a: "one_tooltip (x\<lparr>hoverChain := y\<rparr>) = one_tooltip x" for x y
    by (rule one_tooltip_fields) simp_all
  have b: "one_tooltip (getTooltip_tap t h x) = one_tooltip x" for t h x
    by (rule one_tooltip_fields) (simp_all add: getTooltip_tap_def)
  have c: "one_tooltip (emit (ConsoleError er) x) = one_tooltip x" for er x
    by (rule one_tooltip_fields) (simp_all add: emit_def shown_append)
  from HoverResolved show "one_tooltip s \<Longrightarrow> ?thesis"
    by (auto simp: on_hover_def a b c intro!: one_tooltip_gesture_subscriber
        split: option.splits notification.splits)
next
  case (DockHoverResolved d r)
  have a: "one_tooltip (x\<lparr>dockChain := y\<rparr>) = one_tooltip x" for x y
    by (rule one_tooltip_fields) simp_all
  from DockHoverResolved show "one_tooltip s \<Longrightarrow> ?thesis"
    by (auto simp: on_dock_hover_def Let_def a one_tooltip_dock_apply
        split: option.splits notification.splits)
next
  case (DockDefResolved d r)
  have a: "one_tooltip (x\<lparr>dockChain := y\<rparr>) = one_tooltip x" for x y
    by (rule one_tooltip_fields) simp_all
  from DockDefResolved show "one_tooltip s \<Longrightarrow> ?thesis"
    by (auto simp: on_dock_def_def Let_def a one_tooltip_dock_apply
        split: option.splits notification.splits)
next
  case MouseOut
  then show "one_tooltip s \<Longrightarrow> ?thesis"
    by (auto simp: one_tooltip_def on_mouseout_def emit_def shown_append Let_def
        split: option.splits)
next
  case (KeyDown k)
  then show "one_tooltip s \<Longrightarrow> ?thesis"
    by (simp add: on_keydown_def handleDismiss_def one_tooltip_setFixedTooltip_None)
next
  case (ClickNum b i)
  then show "one_tooltip s \<Longrightarrow> ?thesis"
    by (simp add: on_click_num_def one_tooltip_emit shown_append)
next
  case (GoToDefinition c m)
  have a: "one_tooltip (emit (HistoryPush d) x) = one_tooltip x" for d x
    by (rule one_tooltip_fields) (simp_all add: emit_def shown_append)
  have b: "one_tooltip (emit (Log n p) x) = one_tooltip x" for n p x
    by (rule one_tooltip_fields) (simp_all add: emit_def shown_append)
  from GoToDefinition show "one_tooltip s \<Longrightarrow> ?thesis"
    by (simp add: handleGoToDefinition_def Let_def a b one_tooltip_setFixedTooltip_None)
next
  case (FindReferences c m)
  then show "one_tooltip s \<Longrightarrow> ?thesis"
    by (simp add: handleFindReferences_def one_tooltip_emit shown_append Let_def)
next
  case Dismiss
  then show "one_tooltip s \<Longrightarrow> ?thesis"
    by (simp add: handleDismiss_def one_tooltip_setFixedTooltip_None)
qed

lemma one_tooltip_run: "one_tooltip s \<Longrightarrow> one_tooltip (run props ref s es)"
  unfolding run_def
  by (induction es arbitrary: s) (simp_all add: one_tooltip_step)

lemma one_tooltip_mounted: "one_tooltip mounted"
  by (simp add: mounted_def one_tooltip_dock_apply)

subsection \<open>The claims\<close>

text \<open>
  C1, as the claim states it, fails. A click on A whose hover lookup is slow: the loading
  timer fires and the subscriber hands the loading data to the docking pipeline, which
  starts its own lookups for A. The pointer then moves to B: the gesture for B begins,
  its hover lookup resolves, nothing is docked and B's tooltip is displayed. When the
  hover lookup for A resolves after that, the docking pipeline docks A and displays it:
  a result of A's lookup replaces the tooltip of the newer position B.
\<close>

theorem C1_docking_result_after_newer_gesture_counterexample:
  "fixedTooltip (run props0 {10, 20} mounted
      [Gesture Click 10 None (Some posA), TimerFired 0,
       Gesture Mouseover 20 None (Some posB), HoverResolved 2 (Value hv)]) = None \<and>
   last (effects (run props0 {10, 20} mounted
      [Gesture Click 10 None (Some posA), TimerFired 0,
       Gesture Mouseover 20 None (Some posB), HoverResolved 2 (Value hv)])) =
     UpdateTooltip ((getTooltip_map 20 (mk_ctx props0 posB) hv)\<lparr>type := Some Mouseover\<rparr>) False \<and>
   tooltipState (run props0 {10, 20} mounted
      [Gesture Click 10 None (Some posA), TimerFired 0,
       Gesture Mouseover 20 None (Some posB), HoverResolved 2 (Value hv)]) =
     Transient ((getTooltip_map 20 (mk_ctx props0 posB) hv)\<lparr>type := Some Mouseover\<rparr>) \<and>
   fixedTooltip (run props0 {10, 20} mounted
      [Gesture Click 10 None (Some posA), TimerFired 0,
       Gesture Mouseover 20 None (Some posB), HoverResolved 2 (Value hv),
       DockHoverResolved 1 (Value hv)]) = Some (getTooltip_map 10 (mk_ctx props0 posA) hv) \<and>
   last (effects (run props0 {10, 20} mounted
      [Gesture Click 10 None (Some posA), TimerFired 0,
       Gesture Mouseover 20 None (Some posB), HoverResolved 2 (Value hv),
       DockHoverResolved 1 (Value hv)])) =
     UpdateTooltip (getTooltip_map 10 (mk_ctx props0 posA) hv) True \<and>
   tooltipState (run props0 {10, 20} mounted
      [Gesture Click 10 None (Some posA), TimerFired 0,
       Gesture Mouseover 20 None (Some posB), HoverResolved 2 (Value hv),
       DockHoverResolved 1 (Value hv)]) =
     Docked (getTooltip_map 10 (mk_ctx props0 posA) hv)"
  by (simp add: handler_defs example_defs Let_def tooltipState_def shown_def)

text \<open>
  C1, amended. A gesture with a resolved position replaces the inner subscription of the
  gesture pipeline: once gesture B has begun after gesture A, whatever happens in
  between and afterwards, neither a hover result nor a timer expiry of A's gesture
  subscription changes the state. The docking subscription is another matter: a gesture
  leaves it as it is, and so does every event that is neither a docking request (the timer
  or hover notification of the current click gesture, on which the subscriber calls
  \<open>fixedTooltip.next\<close>) nor a notification of the docking subscription's own lookups; a
  docking request replaces it by a new subscription.
\<close>

theorem C1_superseded_gesture_chain_is_silent:
  assumes "part locA \<noteq> None" and "part locB \<noteq> None"
    and "hoverChain (step props ref s0 (Gesture tyA tA tdA (Some locA))) = Some cA"
    and "s' = run props ref
           (step props ref
              (run props ref (step props ref s0 (Gesture tyA tA tdA (Some locA))) es1)
              (Gesture tyB tB tdB (Some locB))) es2"
  shows "step props ref s' (HoverResolved (gid cA) r) = s' \<and>
     step props ref s' (TimerFired (gid cA)) = s' \<and>
     dockChain (step props ref s (Gesture tyB tB tdB (Some locB))) = dockChain s \<and>
     (\<not> docking_request s e \<and> \<not> docking_notification s e \<longrightarrow>
        dockChain (step props ref s e) = dockChain s) \<and>
     (docking_request s e \<longrightarrow>
        map_option did (dockChain (step props ref s e)) = Some (nextId s))"
proof -
  let ?sA = "step props ref s0 (Gesture tyA tA tdA (Some locA))"
  let ?s1 = "run props ref ?sA es1"
  let ?sB = "step props ref ?s1 (Gesture tyB tB tdB (Some locB))"
  from assms(1,3) have "gid cA < nextId ?sA"
    using gesture_starts [of locA props tyA tA tdA s0] by auto
  also have "\<dots> \<le> nextId ?s1" by (rule nextId_run)
  finally have "stale (gid cA) ?sB"
    using assms(2) by (simp add: gesture_supersedes)
  then have "stale (gid cA) s'"
    unfolding assms(4) by (rule stale_run)
  then have silent: "step props ref s' (HoverResolved (gid cA) r) = s' \<and>
     step props ref s' (TimerFired (gid cA)) = s'"
    by (simp add: stale_noop)
  have gesture: "dockChain (step props ref s (Gesture tyB tB tdB (Some locB))) = dockChain s"
    using assms(2) by (simp add: gesture_starts)
  have kept: "\<not> docking_request s e \<and> \<not> docking_notification s e \<longrightarrow>
        dockChain (step props ref s e) = dockChain s"
    by (simp add: dockChain_kept)
  have replaced: "docking_request s e \<longrightarrow>
        map_option did (dockChain (step props ref s e)) = Some (nextId s)"
    by (simp add: dockChain_replaced)
  from silent gesture kept replaced show ?thesis
    by blast
qed

theorem C1_superseded_gesture_chain_is_silent_witness:
  "part posA \<noteq> None \<and> part posB \<noteq> None \<and>
   hoverChain (step props0 {10, 20} mounted (Gesture Click 10 None (Some posA))) = Some chainA \<and>
   step props0 {10, 20}
     (run props0 {10, 20}
        (step props0 {10, 20}
           (run props0 {10, 20} (step props0 {10, 20} mounted (Gesture Click 10 None (Some posA)))
              [TimerFired 0])
           (Gesture Mouseover 20 None (Some posB)))
        [MouseOut])
     (HoverResolved 0 (Value hv)) =
   run props0 {10, 20}
     (step props0 {10, 20}
        (run props0 {10, 20} (step props0 {10, 20} mounted (Gesture Click 10 None (Some posA)))
           [TimerFired 0])
        (Gesture Mouseover 20 None (Some posB)))
     [MouseOut] \<and>
   \<not> docking_request clicked_A_loading MouseOut \<and>
   \<not> docking_notification clicked_A_loading MouseOut \<and>
   dockChain clicked_A_loading = Some loadingA \<and>
   dockChain (step props0 {10, 20} clicked_A_loading MouseOut) = Some loadingA \<and>
   docking_request (step props0 {10, 20} mounted (Gesture Click 10 None (Some posA)))
     (TimerFired 0) \<and>
   map_option did
     (dockChain
        (step props0 {10, 20} (step props0 {10, 20} mounted (Gesture Click 10 None (Some posA)))
           (TimerFired 0))) = Some 1"
proof -
  let ?sA = "step props0 {10, 20} mounted (Gesture Click 10 None (Some posA))"
  have a: "part posA \<noteq> None" by (simp add: posA_def)
  have b: "part posB \<noteq> None" by (simp add: posB_def)
  have c: "hoverChain ?sA = Some chainA"
    by (simp add: handler_defs example_defs chainA_def Let_def)
  have d: "gid chainA = 0" by (simp add: chainA_def)
  have q1: "\<not> docking_request clicked_A_loading MouseOut"
    by (simp add: docking_request_def split: option.splits)
  have q2: "\<not> docking_notification clicked_A_loading MouseOut"
    by (simp add: docking_notification_def split: option.splits)
  have q3: "dockChain clicked_A_loading = Some loadingA"
    by (simp add: clicked_A_loading_def loadingA_def handler_defs example_defs Let_def)
  have q4: "docking_request ?sA (TimerFired 0)"
    unfolding docking_request_def c by (simp add: chainA_def)
  have q5: "nextId ?sA = 1"
    by (simp add: handler_defs example_defs Let_def)
  note silent =
    C1_superseded_gesture_chain_is_silent [OF a b c refl, where ?es1.0 = "[TimerFired 0]"
      and tyB = Mouseover and tB = 20 and tdB = None and ?es2.0 = "[MouseOut]"
      and r = "Value hv" and s = clicked_A_loading and e = MouseOut]
  note request =
    C1_superseded_gesture_chain_is_silent [OF a b c refl, where ?es1.0 = "[TimerFired 0]"
      and tyB = Mouseover and tB = 20 and tdB = None and ?es2.0 = "[MouseOut]"
      and r = "Value hv" and s = ?sA and e = "TimerFired 0"]
  from silent have p1: "step props0 {10, 20}
     (run props0 {10, 20}
        (step props0 {10, 20} (run props0 {10, 20} ?sA [TimerFired 0])
           (Gesture Mouseover 20 None (Some posB)))
        [MouseOut])
     (HoverResolved 0 (Value hv)) =
   run props0 {10, 20}
     (step props0 {10, 20} (run props0 {10, 20} ?sA [TimerFired 0])
        (Gesture Mouseover 20 None (Some posB)))
     [MouseOut]"
    by (simp only: d) (blast?)
  from silent q1 q2 q3 have p2: "dockChain (step props0 {10, 20} clicked_A_loading MouseOut) =
      Some loadingA"
    by (simp only: q3) (blast?)
  from request q4 q5 have p3: "map_option did (dockChain (step props0 {10, 20} ?sA (TimerFired 0))) =
      Some 1"
    by (simp only: q5) (blast?)
  from a b c p1 q1 q2 q3 p2 q4 p3 show ?thesis
    by blast
qed

text \<open>
  C3, as the claim states it, fails. On a click on A, \<open>getJumpURL\<close> is called for A's
  position when the gesture begins and a second time when the hover result is handed to
  the docking pipeline: docking asks for the definition again.
\<close>

theorem C3_definition_requested_again_counterexample:
  "count_list
     (effects (run props0 {10, 20} mounted
        [Gesture Click 10 None (Some posA), HoverResolved 0 (Value hv)]))
     (GetJumpURL (mk_ctx props0 posA)) = 2"
  by (simp add: handler_defs example_defs Let_def)

text \<open>
  C3, amended. A gesture with a resolved position calls \<open>getJumpURL\<close> right after
  \<open>getHover\<close>, and keeps nothing of that call: the docked tooltip and the docking
  subscription are as before. Docking calls \<open>getHover\<close> and \<open>getJumpURL\<close> again, and the
  definition target attached to the docked tooltip is the response to the docking's own
  call (null and the empty string leaving the target undefined), whichever of the
  docking's two lookups resolves first: when the hover lookup is first, the tooltip is
  docked without target and gets the target when the definition response arrives; when the
  definition response is first, it waits, docks nothing, and the tooltip gets it as soon as
  the hover lookup has resolved.
\<close>

theorem C3_definition_fetched_on_docking:
  "(part loc \<noteq> None \<longrightarrow>
      (\<exists>es. effects (step props ref s (Gesture ty t td (Some loc))) =
              es @ [GetHover (mk_ctx props loc), GetJumpURL (mk_ctx props loc)]) \<and>
      fixedTooltip (step props ref s (Gesture ty t td (Some loc))) = fixedTooltip s \<and>
      dockChain (step props ref s (Gesture ty t td (Some loc))) = dockChain s) \<and>
   effects (fixedTooltip_next data s) = effects s @ [GetHover (ctx data), GetJumpURL (ctx data)] \<and>
   (dockChain s = Some c \<and> ddef c = None \<and> dhover c = Some tt \<and>
    contents tt = Some (x # xs) \<longrightarrow>
      fixedTooltip (step props ref s (DockDefResolved (did c) r)) =
        Some (tt\<lparr>defUrlOrError :=
                   def_or_undefined (case r of Value u \<Rightarrow> Inr u | Failure e \<Rightarrow> Inl e)\<rparr>)) \<and>
   (dockChain s = Some c \<and> dhover c = None \<and> ddef c = None \<and> \<not> isEmptyHover h \<longrightarrow>
      fixedTooltip (step props ref s (DockHoverResolved (did c) (Value h))) =
        Some (getTooltip_map (dtarget c) (dctx c) h) \<and>
      dockChain (step props ref s (DockHoverResolved (did c) (Value h))) =
        Some (c\<lparr>dhover := Some (getTooltip_map (dtarget c) (dctx c) h)\<rparr>)) \<and>
   (dockChain s = Some c \<and> dhover c = None \<and> ddef c = None \<longrightarrow>
      dockChain (step props ref s (DockDefResolved (did c) r)) =
        Some (c\<lparr>ddef := Some (case r of Value u \<Rightarrow> Inr u | Failure e \<Rightarrow> Inl e)\<rparr>) \<and>
      fixedTooltip (step props ref s (DockDefResolved (did c) r)) = fixedTooltip s) \<and>
   (dockChain s = Some c \<and> dhover c = None \<and> ddef c = Some resp \<and> \<not> isEmptyHover h \<longrightarrow>
      fixedTooltip (step props ref s (DockHoverResolved (did c) (Value h))) =
        Some ((getTooltip_map (dtarget c) (dctx c) h)
                \<lparr>defUrlOrError := def_or_undefined resp\<rparr>))"
proof (intro conjI impI)
  assume "part loc \<noteq> None"
  then show "\<exists>es. effects (step props ref s (Gesture ty t td (Some loc))) =
              es @ [GetHover (mk_ctx props loc), GetJumpURL (mk_ctx props loc)]"
    by (auto simp: on_gesture_def emit_def Let_def split: option.splits)
  from \<open>part loc \<noteq> None\<close>
  show "fixedTooltip (step props ref s (Gesture ty t td (Some loc))) = fixedTooltip s"
    by (auto simp: on_gesture_def emit_def Let_def split: option.splits)
  from \<open>part loc \<noteq> None\<close>
  show "dockChain (step props ref s (Gesture ty t td (Some loc))) = dockChain s"
    by (auto simp: on_gesture_def emit_def Let_def split: option.splits)
next
  show "effects (fixedTooltip_next data s) =
      effects s @ [GetHover (ctx data), GetJumpURL (ctx data)]"
    by (simp add: fixedTooltip_next_def emit_def Let_def)
next
  assume "dockChain s = Some c \<and> ddef c = None \<and> dhover c = Some tt \<and>
    contents tt = Some (x # xs)"
  then show "fixedTooltip (step props ref s (DockDefResolved (did c) r)) =
        Some (tt\<lparr>defUrlOrError :=
                   def_or_undefined (case r of Value u \<Rightarrow> Inr u | Failure e \<Rightarrow> Inl e)\<rparr>)"
    by (simp add: on_dock_def_def dock_apply_def setFixedTooltip_def emit_def isEmptyHover_def
        Let_def)
next
  assume a: "dockChain s = Some c \<and> dhover c = None \<and> ddef c = None \<and> \<not> isEmptyHover h"
  then show "fixedTooltip (step props ref s (DockHoverResolved (did c) (Value h))) =
        Some (getTooltip_map (dtarget c) (dctx c) h)"
    by (auto simp: on_dock_hover_def dock_apply_def setFixedTooltip_def emit_def
        getTooltip_map_def getTooltip_tap_def isEmptyHover_def Let_def split: option.splits)
  from a show "dockChain (step props ref s (DockHoverResolved (did c) (Value h))) =
        Some (c\<lparr>dhover := Some (getTooltip_map (dtarget c) (dctx c) h)\<rparr>)"
    by (simp add: on_dock_hover_def Let_def)
next
  assume a: "dockChain s = Some c \<and> dhover c = None \<and> ddef c = None"
  then show "dockChain (step props ref s (DockDefResolved (did c) r)) =
        Some (c\<lparr>ddef := Some (case r of Value u \<Rightarrow> Inr u | Failure e \<Rightarrow> Inl e)\<rparr>)"
    by (simp add: on_dock_def_def Let_def)
  from a show "fixedTooltip (step props ref s (DockDefResolved (did c) r)) = fixedTooltip s"
    by (simp add: on_dock_def_def Let_def)
next
  assume "dockChain s = Some c \<and> dhover c = None \<and> ddef c = Some resp \<and> \<not> isEmptyHover h"
  then show "fixedTooltip (step props ref s (DockHoverResolved (did c) (Value h))) =
        Some ((getTooltip_map (dtarget c) (dctx c) h)
                \<lparr>defUrlOrError := def_or_undefined resp\<rparr>)"
    by (auto simp: on_dock_hover_def dock_apply_def setFixedTooltip_def emit_def
        getTooltip_map_def getTooltip_tap_def isEmptyHover_def Let_def split: option.splits)
qed

theorem C3_definition_fetched_on_docking_witness:
  "part posA \<noteq> None \<and>
   (\<exists>es. effects (step props0 {10, 20} mounted (Gesture Mouseover 10 None (Some posA))) =
      es @ [GetHover (mk_ctx props0 posA), GetJumpURL (mk_ctx props0 posA)]) \<and>
   effects (fixedTooltip_next tipA mounted) =
     effects mounted @ [GetHover (mk_ctx props0 posA), GetJumpURL (mk_ctx props0 posA)] \<and>
   dockChain docking_A = Some dockA \<and> ddef dockA = None \<and> dhover dockA = Some tipA \<and>
   contents tipA = Some [''doc''] \<and>
   fixedTooltip (step props0 {10, 20} docking_A (DockDefResolved 1 (Value (Some ''/def'')))) =
     Some (tipA\<lparr>defUrlOrError := Some (Inr ''/def'')\<rparr>) \<and>
   dockChain clicked_A_loading = Some loadingA \<and> dhover loadingA = None \<and>
   ddef loadingA = None \<and> \<not> isEmptyHover hv \<and>
   fixedTooltip (step props0 {10, 20} clicked_A_loading (DockHoverResolved 1 (Value hv))) =
     Some tipA \<and>
   dockChain (step props0 {10, 20} clicked_A_loading (DockDefResolved 1 (Value (Some ''/def'')))) =
     Some dockA_def_first \<and>
   dockChain docking_A_def_first = Some dockA_def_first \<and> dhover dockA_def_first = None \<and>
   ddef dockA_def_first = Some (Inr (Some ''/def'')) \<and>
   fixedTooltip (step props0 {10, 20} docking_A_def_first (DockHoverResolved 1 (Value hv))) =
     Some (tipA\<lparr>defUrlOrError := Some (Inr ''/def'')\<rparr>)"
proof -
  have a: "part posA \<noteq> None" by (simp add: posA_def)
  have b: "dockChain docking_A = Some dockA"
    by (simp add: docking_A_def dockA_def tipA_def handler_defs example_defs Let_def)
  have c: "ddef dockA = None" "dhover dockA = Some tipA" "did dockA = 1"
    by (simp_all add: dockA_def)
  have d: "contents tipA = Some [''doc'']" "ctx tipA = mk_ctx props0 posA"
    by (simp_all add: tipA_def getTooltip_map_def hv_def)
  have e: "def_or_undefined (Inr (Some ''/def'')) = Some (Inr ''/def'')"
    by (simp add: def_or_undefined_def)
  have f: "dockChain clicked_A_loading = Some loadingA"
    by (simp add: clicked_A_loading_def loadingA_def handler_defs example_defs Let_def)
  have g: "dhover loadingA = None" "ddef loadingA = None" "did loadingA = 1"
    "getTooltip_map (dtarget loadingA) (dctx loadingA) hv = tipA"
    "loadingA\<lparr>ddef := Some (Inr (Some ''/def''))\<rparr> = dockA_def_first"
    by (simp_all add: loadingA_def tipA_def dockA_def_first_def)
  have h: "\<not> isEmptyHover hv"
    by (simp add: isEmptyHover_def hv_def)
  have i: "dockChain docking_A_def_first = Some dockA_def_first"
    by (simp add: docking_A_def_first_def dockA_def_first_def handler_defs example_defs Let_def)
  have j: "dhover dockA_def_first = None" "ddef dockA_def_first = Some (Inr (Some ''/def''))"
    "did dockA_def_first = 1"
    "getTooltip_map (dtarget dockA_def_first) (dctx dockA_def_first) hv = tipA"
    by (simp_all add: dockA_def_first_def tipA_def)
  note hover_first =
    C3_definition_fetched_on_docking [where props = props0 and ref = "{10, 20}"
      and s = docking_A and c = dockA and tt = tipA and x = "''doc''" and xs = "[]"
      and r = "Value (Some ''/def'')" and data = tipA]
  note gesture =
    C3_definition_fetched_on_docking [where props = props0 and ref = "{10, 20}"
      and s = mounted and loc = posA and ty = Mouseover and t = 10 and td = None
      and data = tipA]
  note pending =
    C3_definition_fetched_on_docking [where props = props0 and ref = "{10, 20}"
      and s = clicked_A_loading and c = loadingA and h = hv
      and r = "Value (Some ''/def'')"]
  note def_first =
    C3_definition_fetched_on_docking [where props = props0 and ref = "{10, 20}"
      and s = docking_A_def_first and c = dockA_def_first and h = hv
      and resp = "Inr (Some ''/def'')"]
  from gesture a have p1:
    "\<exists>es. effects (step props0 {10, 20} mounted (Gesture Mouseover 10 None (Some posA))) =
      es @ [GetHover (mk_ctx props0 posA), GetJumpURL (mk_ctx props0 posA)]"
    by blast
  from gesture d have p2: "effects (fixedTooltip_next tipA mounted) =
     effects mounted @ [GetHover (mk_ctx props0 posA), GetJumpURL (mk_ctx props0 posA)]"
    by (simp only: d)
  from hover_first b c d e have p3:
    "fixedTooltip (step props0 {10, 20} docking_A (DockDefResolved 1 (Value (Some ''/def'')))) =
     Some (tipA\<lparr>defUrlOrError := Some (Inr ''/def'')\<rparr>)"
    by (simp only: c d e notification.case) (blast?)
  from pending f g h have p4:
    "fixedTooltip (step props0 {10, 20} clicked_A_loading (DockHoverResolved 1 (Value hv))) =
     Some tipA"
    by (simp only: g) (blast?)
  from pending f g have p5:
    "dockChain (step props0 {10, 20} clicked_A_loading (DockDefResolved 1 (Value (Some ''/def'')))) =
     Some dockA_def_first"
    by (simp only: g notification.case) (blast?)
  from def_first i j h e have p6:
    "fixedTooltip (step props0 {10, 20} docking_A_def_first (DockHoverResolved 1 (Value hv))) =
     Some (tipA\<lparr>defUrlOrError := Some (Inr ''/def'')\<rparr>)"
    by (simp only: j e) (blast?)
  from a p1 p2 b c d p3 f g h p4 p5 i j p6 show ?thesis
    by blast
qed

text \<open>
  C4. The code at the claim's scenario: a click on A, hover contents present, the
  definition lookup resolving to null. \<open>setFixedTooltip\<close> runs in the \<open>tap\<close> when the
  docking's hover lookup resolves and again in the subscriber when the definition lookup
  has resolved, and each run logs \<open>TooltipDocked\<close>: the event is logged twice for the one
  docking. When the definition lookup resolves to a URL instead, the first run still logs
  \<open>TooltipDocked\<close> without definition and the second \<open>TooltipDockedWithDefinition\<close>.
\<close>

theorem C4_docked_logged_twice:
  "count_list
     (effects (run props0 {10, 20} mounted
        [Gesture Click 10 None (Some posA), HoverResolved 0 (Value hv),
         DockHoverResolved 1 (Value hv), DockDefResolved 1 (Value None)]))
     (Log ''TooltipDocked'' (Some False)) = 2 \<and>
   count_list
     (effects (run props0 {10, 20} mounted
        [Gesture Click 10 None (Some posA), HoverResolved 0 (Value hv),
         DockHoverResolved 1 (Value hv), DockDefResolved 1 (Value (Some ''/def''))]))
     (Log ''TooltipDocked'' (Some False)) = 1 \<and>
   count_list
     (effects (run props0 {10, 20} mounted
        [Gesture Click 10 None (Some posA), HoverResolved 0 (Value hv),
         DockHoverResolved 1 (Value hv), DockDefResolved 1 (Value (Some ''/def''))]))
     (Log ''TooltipDockedWithDefinition'' (Some True)) = 1"
  by (simp add: handler_defs example_defs Let_def)

text \<open>
  C6_one_tooltip. In every state the mounted component reaches, at most one tooltip is active (the
  docked tooltip, its sticky class and the displayed tooltip agree, and without a docked
  tooltip no element is sticky and nothing is displayed as docked). And whatever was
  docked before, when the docking of a clicked position takes effect, the tooltip docked
  is that position's and its target is the only element left with the sticky class.
\<close>

theorem C6_one_tooltip:
  "one_tooltip (run props ref mounted es) \<and>
   (dockChain s = Some c \<and> dhover c = None \<and> \<not> isEmptyHover h \<longrightarrow>
      map_option target (fixedTooltip (step props ref s (DockHoverResolved (did c) (Value h)))) =
        Some (dtarget c) \<and>
      sticky (step props ref s (DockHoverResolved (did c) (Value h))) = {dtarget c})"
proof (intro conjI impI)
  show "one_tooltip (run props ref mounted es)"
    by (simp add: one_tooltip_run one_tooltip_mounted)
next
  assume a: "dockChain s = Some c \<and> dhover c = None \<and> \<not> isEmptyHover h"
  then show "map_option target
      (fixedTooltip (step props ref s (DockHoverResolved (did c) (Value h)))) =
        Some (dtarget c)"
    by (auto simp: on_dock_hover_def dock_apply_def setFixedTooltip_def emit_def
        getTooltip_map_def getTooltip_tap_def isEmptyHover_def Let_def split: option.splits)
  from a show "sticky (step props ref s (DockHoverResolved (did c) (Value h))) = {dtarget c}"
    by (auto simp: on_dock_hover_def dock_apply_def setFixedTooltip_def emit_def
        getTooltip_map_def getTooltip_tap_def isEmptyHover_def Let_def split: option.splits)
qed

theorem C6_one_tooltip_witness:
  "one_tooltip (run props0 {10, 20} mounted
     [Gesture Click 10 None (Some posA), HoverResolved 0 (Value hv), MouseOut]) \<and>
   map_option target (fixedTooltip docked_A_clicked_B) = Some 10 \<and>
   sticky docked_A_clicked_B = {10} \<and>
   dockChain docked_A_clicked_B = Some dockB \<and> dhover dockB = None \<and> \<not> isEmptyHover hv \<and>
   map_option target
     (fixedTooltip (step props0 {10, 20} docked_A_clicked_B (DockHoverResolved 3 (Value hv)))) =
     Some 20 \<and>
   sticky (step props0 {10, 20} docked_A_clicked_B (DockHoverResolved 3 (Value hv))) = {20}"
proof -
  have a: "dockChain docked_A_clicked_B = Some dockB"
    by (simp add: docked_A_clicked_B_def dockB_def handler_defs example_defs Let_def)
  have b: "dhover dockB = None" "did dockB = 3" "dtarget dockB = 20"
    by (simp_all add: dockB_def)
  have c: "\<not> isEmptyHover hv"
    by (simp add: isEmptyHover_def hv_def)
  have d: "map_option target (fixedTooltip docked_A_clicked_B) = Some 10"
    by (simp add: docked_A_clicked_B_def handler_defs example_defs Let_def)
  have e: "sticky docked_A_clicked_B = {10}"
    by (simp add: docked_A_clicked_B_def handler_defs example_defs Let_def)
  note inst = C6_one_tooltip [where props = props0 and ref = "{10, 20}" and s = docked_A_clicked_B
      and c = dockB and h = hv
      and es = "[Gesture Click 10 None (Some posA), HoverResolved 0 (Value hv), MouseOut]"]
  from inst a b c d e show ?thesis
    by (simp only: b) blast
qed

text \<open>
  C7_loading_timer_race. The loading timer changes the state only while its inner subscription is current,
  the hover lookup unresolved and the interval still subscribed. Once the hover lookup of a
  gesture has resolved, whatever happens in between and afterwards, the timer of that
  gesture is a no-op. And when the timer does fire first, on a mouseover with nothing
  docked, the tooltip state becomes Loading for that gesture's target.
\<close>

theorem C7_loading_timer_race:
  "(step props ref s (TimerFired g) \<noteq> s \<longrightarrow>
      (\<exists>c. hoverChain s = Some c \<and> gid c = g \<and> timer c)) \<and>
   (part loc \<noteq> None \<and>
    hoverChain (step props ref s0 (Gesture ty t td (Some loc))) = Some c0 \<and>
    s' = run props ref
           (step props ref
              (run props ref (step props ref s0 (Gesture ty t td (Some loc))) es1)
              (HoverResolved (gid c0) r)) es2 \<longrightarrow>
      step props ref s' (TimerFired (gid c0)) = s') \<and>
   (hoverChain s = Some c \<and> timer c \<and> gtype c = Mouseover \<and> fixedTooltip s = None \<longrightarrow>
      tooltipState (step props ref s (TimerFired (gid c))) =
        Loading ((bare (gtarget c) (gctx c))\<lparr>loading := True, type := Some Mouseover\<rparr>))"
proof (intro conjI impI)
  assume "step props ref s (TimerFired g) \<noteq> s"
  then show "\<exists>c. hoverChain s = Some c \<and> gid c = g \<and> timer c"
    by (auto simp: on_timer_def split: option.splits if_splits)
next
  let ?sA = "step props ref s0 (Gesture ty t td (Some loc))"
  let ?s1 = "run props ref ?sA es1"
  assume a: "part loc \<noteq> None \<and> hoverChain ?sA = Some c0 \<and>
    s' = run props ref (step props ref ?s1 (HoverResolved (gid c0) r)) es2"
  then have "gid c0 < nextId ?sA"
    using gesture_starts [of loc props ty t td s0] by auto
  also have "\<dots> \<le> nextId ?s1" by (rule nextId_run)
  finally have "stale (gid c0) (step props ref ?s1 (HoverResolved (gid c0) r))"
    by (simp add: hover_retires)
  then have "stale (gid c0) s'"
    using a stale_run by simp
  then show "step props ref s' (TimerFired (gid c0)) = s'"
    by (simp add: stale_noop)
next
  assume "hoverChain s = Some c \<and> timer c \<and> gtype c = Mouseover \<and> fixedTooltip s = None"
  then show "tooltipState (step props ref s (TimerFired (gid c))) =
        Loading ((bare (gtarget c) (gctx c))\<lparr>loading := True, type := Some Mouseover\<rparr>)"
    by (simp add: on_timer_def gesture_subscriber_def emit_def tooltipState_def shown_append
        bare_def Let_def)
qed

theorem C7_loading_timer_race_witness:
  "step props0 {10} (step props0 {10} mounted (Gesture Mouseover 10 None (Some posA)))
     (TimerFired 0) \<noteq>
   step props0 {10} mounted (Gesture Mouseover 10 None (Some posA)) \<and>
   (\<exists>c. hoverChain (step props0 {10} mounted (Gesture Mouseover 10 None (Some posA))) = Some c \<and>
        gid c = 0 \<and> timer c) \<and>
   part posA \<noteq> None \<and>
   hoverChain (step props0 {10} mounted (Gesture Mouseover 10 None (Some posA))) = Some hoverA \<and>
   step props0 {10}
     (run props0 {10}
        (step props0 {10}
           (run props0 {10} (step props0 {10} mounted (Gesture Mouseover 10 None (Some posA))) [])
           (HoverResolved 0 (Value hv)))
        [MouseOut])
     (TimerFired 0) =
   run props0 {10}
     (step props0 {10}
        (run props0 {10} (step props0 {10} mounted (Gesture Mouseover 10 None (Some posA))) [])
        (HoverResolved 0 (Value hv)))
     [MouseOut] \<and>
   timer hoverA \<and> gtype hoverA = Mouseover \<and>
   fixedTooltip (step props0 {10} mounted (Gesture Mouseover 10 None (Some posA))) = None \<and>
   tooltipState
     (step props0 {10} (step props0 {10} mounted (Gesture Mouseover 10 None (Some posA)))
        (TimerFired 0)) =
     Loading ((bare 10 (mk_ctx props0 posA))\<lparr>loading := True, type := Some Mouseover\<rparr>)"
proof -
  let ?s1 = "step props0 {10} mounted (Gesture Mouseover 10 None (Some posA))"
  have a: "part posA \<noteq> None" by (simp add: posA_def)
  have c: "hoverChain ?s1 = Some hoverA"
    by (simp add: handler_defs example_defs hoverA_def Let_def)
  have f: "fixedTooltip ?s1 = None"
    by (simp add: handler_defs example_defs Let_def)
  have e: "effects (step props0 {10} ?s1 (TimerFired 0)) \<noteq> effects ?s1"
    by (simp add: handler_defs example_defs Let_def)
  then have n: "step props0 {10} ?s1 (TimerFired 0) \<noteq> ?s1"
    by auto
  have h: "gid hoverA = 0" "timer hoverA" "gtype hoverA = Mouseover" "gtarget hoverA = 10"
    "gctx hoverA = mk_ctx props0 posA"
    by (simp_all add: hoverA_def)
  note inst = C7_loading_timer_race [where props = props0 and ref = "{10}" and s = ?s1 and g = 0 and loc = posA
      and ?s0.0 = mounted and ty = Mouseover and t = 10 and td = None and ?c0.0 = hoverA
      and ?es1.0 = "[]" and r = "Value hv" and ?es2.0 = "[MouseOut]" and c = hoverA
      and s' = "run props0 {10}
        (step props0 {10} (run props0 {10} ?s1 []) (HoverResolved 0 (Value hv))) [MouseOut]"]
  from inst n have p1: "\<exists>c. hoverChain ?s1 = Some c \<and> gid c = 0 \<and> timer c"
    by blast
  from inst a c h have p2: "step props0 {10}
     (run props0 {10} (step props0 {10} (run props0 {10} ?s1 []) (HoverResolved 0 (Value hv)))
        [MouseOut]) (TimerFired 0) =
     run props0 {10} (step props0 {10} (run props0 {10} ?s1 []) (HoverResolved 0 (Value hv)))
        [MouseOut]"
    by (simp only: h) blast
  from inst c h f have p3: "tooltipState (step props0 {10} ?s1 (TimerFired 0)) =
     Loading ((bare 10 (mk_ctx props0 posA))\<lparr>loading := True, type := Some Mouseover\<rparr>)"
    by (simp only: h)
  from n p1 a c p2 h f p3 show ?thesis
    by blast
qed

text \<open>
  C8_dismiss_returns_to_idle. In every state, the Escape key and the dismiss action leave no docked tooltip, the
  tooltip state Idle, and no element with the highlight or the sticky class.
\<close>

theorem C8_dismiss_returns_to_idle:
  "fixedTooltip (step props ref s (KeyDown ''Escape'')) = None \<and>
   tooltipState (step props ref s (KeyDown ''Escape'')) = Idle \<and>
   highlight (step props ref s (KeyDown ''Escape'')) = {} \<and>
   sticky (step props ref s (KeyDown ''Escape'')) = {} \<and>
   fixedTooltip (step props ref s Dismiss) = None \<and>
   tooltipState (step props ref s Dismiss) = Idle \<and>
   highlight (step props ref s Dismiss) = {} \<and>
   sticky (step props ref s Dismiss) = {}"
  by (simp add: on_keydown_def handleDismiss_def setFixedTooltip_def emit_def tooltipState_def
      shown_append Let_def)

text \<open>
  C9_navigation_modifier_gated. A go-to-definition or find-references click carrying shift, ctrl, alt or meta only
  logs the click: no \<open>preventDefault\<close>, no history push, no other change. Without a
  modifier key the default is prevented and the history is pushed (to the definition, or
  to the references view).
\<close>

theorem C9_navigation_modifier_gated:
  "(shiftKey e \<or> ctrlKey e \<or> altKey e \<or> metaKey e \<longrightarrow>
      step props ref s (GoToDefinition c e) = emit (Log ''GoToDefClicked'' None) s \<and>
      step props ref s (FindReferences c e) = emit (Log ''FindRefsClicked'' None) s) \<and>
   (\<not> (shiftKey e \<or> ctrlKey e \<or> altKey e \<or> metaKey e) \<longrightarrow>
      effects (step props ref s (GoToDefinition c e)) =
        effects s @ [Log ''GoToDefClicked'' None, PreventDefault, HideTooltip, HideTooltip,
                     HistoryPush (AbsoluteBlobURL c)] \<and>
      effects (step props ref s (FindReferences c e)) =
        effects s @ [Log ''FindRefsClicked'' None, PreventDefault,
                     HistoryPush (PrettyBlobURL c ''references'')])"
  by (simp add: handleGoToDefinition_def handleFindReferences_def modified_def
      setFixedTooltip_def emit_def Let_def)

theorem C9_navigation_modifier_gated_witness:
  "(shiftKey shift_key \<or> ctrlKey shift_key \<or> altKey shift_key \<or> metaKey shift_key) \<and>
   effects (step props0 {10} mounted (GoToDefinition (mk_ctx props0 posA) shift_key)) =
     [HideTooltip, Log ''GoToDefClicked'' None] \<and>
   effects (step props0 {10} mounted (FindReferences (mk_ctx props0 posA) shift_key)) =
     [HideTooltip, Log ''FindRefsClicked'' None] \<and>
   \<not> (shiftKey no_keys \<or> ctrlKey no_keys \<or> altKey no_keys \<or> metaKey no_keys) \<and>
   effects (step props0 {10} mounted (GoToDefinition (mk_ctx props0 posA) no_keys)) =
     [HideTooltip, Log ''GoToDefClicked'' None, PreventDefault, HideTooltip, HideTooltip,
      HistoryPush (AbsoluteBlobURL (mk_ctx props0 posA))] \<and>
   effects (step props0 {10} mounted (FindReferences (mk_ctx props0 posA) no_keys)) =
     [HideTooltip, Log ''FindRefsClicked'' None, PreventDefault,
      HistoryPush (PrettyBlobURL (mk_ctx props0 posA) ''references'')]"
proof -
  have m: "effects mounted = [HideTooltip]"
    by (simp add: mounted_def unmounted_def dock_apply_def setFixedTooltip_def emit_def)
  have k: "shiftKey shift_key" "\<not> shiftKey no_keys" "\<not> ctrlKey no_keys" "\<not> altKey no_keys"
    "\<not> metaKey no_keys"
    by (simp_all add: shift_key_def no_keys_def)
  show ?thesis
    using C9_navigation_modifier_gated [where e = shift_key and props = props0 and ref = "{10}" and s = mounted
        and c = "mk_ctx props0 posA"]
      C9_navigation_modifier_gated [where e = no_keys and props = props0 and ref = "{10}" and s = mounted
        and c = "mk_ctx props0 posA"] k
    by (simp add: m emit_def)
qed

end
